theory Spec2Isabelle
  imports Complex_Main "HOL-Library.Sublist"
begin

section \<open>The regime-sync client of OpenGamma.cs\<close>

text \<open>
  The development embeds the decoder and the state update of the indicator
  (\<^verbatim>\<open>src/OpenGamma.cs\<close>): \<^verbatim>\<open>ExtractJsonValue\<close>, \<^verbatim>\<open>ExtractNum\<close>,
  \<^verbatim>\<open>ParseGammaLevelObject\<close>, \<^verbatim>\<open>ParseGammaLevels\<close> and \<^verbatim>\<open>ParseRegimeUpdate\<close>.

  Conventions of the embedding.
  \<^item> A C\# \<^verbatim>\<open>string\<close> is a \<^typ>\<open>string\<close>; a character is a code unit below 256, which
    covers the ASCII lines the producer writes. \<^verbatim>\<open>null\<close> is \<open>None\<close>.
  \<^item> A C\# \<^verbatim>\<open>int\<close> is an \<^typ>\<open>int\<close>. Every index and counter of the decoder is bounded
    by the length of a line, so 32-bit overflow cannot occur and is not written out.
  \<^item> A C\# \<^verbatim>\<open>double\<close> is a \<^typ>\<open>real\<close>: finite values, taken exactly. The rounding of
    binary64 arithmetic, infinities and NaN are outside the model.
  \<^item> An exception is a value: a function that can throw returns \<open>exn + 'a\<close>, and a
    function that mutates the indicator returns the exception thrown, if any, together
    with the fields as the exception left them.
  \<^item> \<^verbatim>\<open>Print\<close> and \<^verbatim>\<open>ForceRefresh\<close> only log and request a repaint; they are left out.
\<close>

subsection \<open>The .NET primitives the decoder calls\<close>

datatype exn = IndexOutOfRangeException | ArgumentOutOfRangeException

text \<open>\<^verbatim>\<open>s[i]\<close>\<close>

definition char_at :: "string \<Rightarrow> int \<Rightarrow> exn + char" where
  "char_at s i =
     (if 0 \<le> i \<and> i < int (length s) then Inr (s ! nat i) else Inl IndexOutOfRangeException)"

text \<open>\<^verbatim>\<open>s.Substring(startIndex, length)\<close>\<close>

definition Substring :: "string \<Rightarrow> int \<Rightarrow> int \<Rightarrow> exn + string" where
  "Substring s startIndex len =
     (if startIndex < 0 \<or> len < 0 \<or> int (length s) < startIndex + len
      then Inl ArgumentOutOfRangeException
      else Inr (take (nat len) (drop (nat startIndex) s)))"

text \<open>\<^verbatim>\<open>s.StartsWith(pat)\<close>, by code units\<close>

fun starts_with :: "string \<Rightarrow> string \<Rightarrow> bool" where
  "starts_with s [] = True"
| "starts_with [] (p # ps) = False"
| "starts_with (c # cs) (p # ps) = (c = p \<and> starts_with cs ps)"

text \<open>
  \<^verbatim>\<open>s.IndexOf(pat)\<close>: the index of the first occurrence of \<open>pat\<close>, or \<open>-1\<close>. The
  comparison is by code units, which is what the culture-sensitive search of .NET
  does on ASCII text. The second argument of \<open>IndexOf_scan\<close> is the index of the
  first character of the text still to search.
\<close>

fun IndexOf_scan :: "string \<Rightarrow> int \<Rightarrow> string \<Rightarrow> int" where
  "IndexOf_scan [] i pat = (if pat = [] then i else - 1)"
| "IndexOf_scan (c # cs) i pat =
     (if starts_with (c # cs) pat then i else IndexOf_scan cs (i + 1) pat)"

definition IndexOf :: "string \<Rightarrow> string \<Rightarrow> int" where
  "IndexOf s pat = IndexOf_scan s 0 pat"

text \<open>\<^verbatim>\<open>s.IndexOf(c, startIndex)\<close>\<close>

fun IndexOf_char_scan :: "string \<Rightarrow> int \<Rightarrow> char \<Rightarrow> int" where
  "IndexOf_char_scan [] i c = - 1"
| "IndexOf_char_scan (x # xs) i c = (if x = c then i else IndexOf_char_scan xs (i + 1) c)"

definition IndexOf_char :: "string \<Rightarrow> char \<Rightarrow> int \<Rightarrow> exn + int" where
  "IndexOf_char s c startIndex =
     (if startIndex < 0 \<or> int (length s) < startIndex
      then Inl ArgumentOutOfRangeException
      else Inr (IndexOf_char_scan (drop (nat startIndex) s) startIndex c))"

text \<open>\<^verbatim>\<open>char.IsWhiteSpace\<close> on the code units below 256\<close>

definition IsWhiteSpace :: "char \<Rightarrow> bool" where
  "IsWhiteSpace c =
     (c \<in> {CHR 0x09, CHR 0x0A, CHR 0x0B, CHR 0x0C, CHR 0x0D, CHR 0x20, CHR 0x85, CHR 0xA0})"

text \<open>\<^verbatim>\<open>char.IsDigit\<close> on the code units below 256: the ASCII digits\<close>

definition IsDigit :: "char \<Rightarrow> bool" where
  "IsDigit c = (c \<in> set ''0123456789'')"

text \<open>\<^verbatim>\<open>s.Trim()\<close>\<close>

definition Trim :: "string \<Rightarrow> string" where
  "Trim s = rev (dropWhile IsWhiteSpace (rev (dropWhile IsWhiteSpace s)))"

text \<open>\<^verbatim>\<open>string.IsNullOrWhiteSpace\<close> of a string that is not null\<close>

definition IsNullOrWhiteSpace :: "string \<Rightarrow> bool" where
  "IsNullOrWhiteSpace s = list_all IsWhiteSpace s"

subsection \<open>ExtractJsonValue\<close>

text \<open>
  \<^verbatim>\<open>while (startIdx < json.Length && char.IsWhiteSpace(json[startIdx])) startIdx++;\<close>
\<close>

function ExtractJsonValue_skip :: "string \<Rightarrow> int \<Rightarrow> exn + int" where
  "ExtractJsonValue_skip json startIdx =
     (if startIdx < int (length json) then
        (case char_at json startIdx of
           Inl e \<Rightarrow> Inl e
         | Inr c \<Rightarrow>
             if IsWhiteSpace c then ExtractJsonValue_skip json (startIdx + 1)
             else Inr startIdx)
      else Inr startIdx)"
  by pat_completeness auto
termination
  by (relation "measure (\<lambda>(json, startIdx). nat (int (length json) - startIdx))") auto

text \<open>
  \<^verbatim>\<open>while (endIdx < json.Length && json[endIdx] != ',' && json[endIdx] != '}') endIdx++;\<close>
\<close>

function ExtractJsonValue_end :: "string \<Rightarrow> int \<Rightarrow> exn + int" where
  "ExtractJsonValue_end json endIdx =
     (if endIdx < int (length json) then
        (case char_at json endIdx of
           Inl e \<Rightarrow> Inl e
         | Inr c \<Rightarrow>
             if c \<noteq> CHR '','' \<and> c \<noteq> CHR ''}'' then ExtractJsonValue_end json (endIdx + 1)
             else Inr endIdx)
      else Inr endIdx)"
  by pat_completeness auto
termination
  by (relation "measure (\<lambda>(json, endIdx). nat (int (length json) - endIdx))") auto

text \<open>The interpolated string \<^verbatim>\<open>$"\"{key}\":"\<close>\<close>

definition key_pattern :: "string \<Rightarrow> string" where
  "key_pattern key = [CHR 0x22] @ key @ [CHR 0x22] @ '':''"

definition ExtractJsonValue :: "string \<Rightarrow> string \<Rightarrow> exn + string option" where
  "ExtractJsonValue json key =
     (let pattern = key_pattern key;
          startIdx = IndexOf json pattern
      in if startIdx < 0 then Inr None
         else
           (case ExtractJsonValue_skip json (startIdx + int (length pattern)) of
              Inl e \<Rightarrow> Inl e
            | Inr startIdx \<Rightarrow>
                if int (length json) \<le> startIdx then Inr None
                else
                  (case char_at json startIdx of
                     Inl e \<Rightarrow> Inl e
                   | Inr c \<Rightarrow>
                       if c = CHR 0x22 then
                         (case IndexOf_char json (CHR 0x22) (startIdx + 1) of
                            Inl e \<Rightarrow> Inl e
                          | Inr endIdx \<Rightarrow>
                              if endIdx < 0 then Inr None
                              else
                                (case Substring json (startIdx + 1) (endIdx - startIdx - 1) of
                                   Inl e \<Rightarrow> Inl e
                                 | Inr v \<Rightarrow> Inr (Some v)))
                       else
                         (case ExtractJsonValue_end json startIdx of
                            Inl e \<Rightarrow> Inl e
                          | Inr endIdx \<Rightarrow>
                              (case Substring json startIdx (endIdx - startIdx) of
                                 Inl e \<Rightarrow> Inl e
                               | Inr v \<Rightarrow> Inr (Some (Trim v)))))))"

subsection \<open>Parsing numbers\<close>

text \<open>
  \<^verbatim>\<open>int.TryParse(s, out v)\<close> and \<^verbatim>\<open>double.TryParse(s, out v)\<close> under the invariant
  culture, following the scanner of the framework: leading white space, one sign,
  the digits (for a double also group separators after the first digit, one decimal
  point and an exponent that is taken only with at least one digit), trailing white
  space and trailing NUL characters. \<open>None\<close> is the result \<^verbatim>\<open>false\<close>; the \<^verbatim>\<open>out\<close>
  variable is then 0, which \<open>out_int\<close> and \<open>out_double\<close> read off. A double is the
  exact value of its literal: literals beyond the range of binary64 and the symbols
  for infinity and NaN are outside the model.
\<close>

definition IsWhite :: "char \<Rightarrow> bool" where
  "IsWhite c = (c \<in> {CHR 0x09, CHR 0x0A, CHR 0x0B, CHR 0x0C, CHR 0x0D, CHR 0x20})"

definition digit_value :: "char \<Rightarrow> int" where
  "digit_value c = of_char c - 48"

definition decimal_value :: "string \<Rightarrow> int" where
  "decimal_value ds = foldl (\<lambda>n c. 10 * n + digit_value c) 0 ds"

definition number_sign :: "string \<Rightarrow> bool \<times> string" where
  "number_sign s =
     (case s of
        [] \<Rightarrow> (False, s)
      | c # cs \<Rightarrow>
          if c = CHR ''+'' then (False, cs)
          else if c = CHR ''-'' then (True, cs)
          else (False, s))"

text \<open>
  The digits before the decimal point; \<open>seen\<close> says that a digit has been read, after
  which a group separator is skipped.
\<close>

fun integral_digits :: "bool \<Rightarrow> string \<Rightarrow> string \<times> string" where
  "integral_digits seen [] = ([], [])"
| "integral_digits seen (c # cs) =
     (if IsDigit c then (case integral_digits True cs of (ds, r) \<Rightarrow> (c # ds, r))
      else if c = CHR '','' \<and> seen then integral_digits seen cs
      else ([], c # cs))"

definition fraction_digits :: "string \<Rightarrow> string \<times> string" where
  "fraction_digits s =
     (case s of
        [] \<Rightarrow> ([], s)
      | c # cs \<Rightarrow>
          if c = CHR ''.'' then (takeWhile IsDigit cs, dropWhile IsDigit cs)
          else ([], s))"

definition exponent_part :: "string \<Rightarrow> int \<times> string" where
  "exponent_part s =
     (case s of
        [] \<Rightarrow> (0, s)
      | c # cs \<Rightarrow>
          if c = CHR ''E'' \<or> c = CHR ''e'' then
            (case number_sign cs of
               (negExp, r) \<Rightarrow>
                 if takeWhile IsDigit r = [] then (0, s)
                 else
                   (if negExp then - decimal_value (takeWhile IsDigit r)
                    else decimal_value (takeWhile IsDigit r),
                    dropWhile IsDigit r))
          else (0, s))"

definition int_TryParse :: "string option \<Rightarrow> int option" where
  "int_TryParse s =
     (case s of
        None \<Rightarrow> None
      | Some str \<Rightarrow>
          (case number_sign (dropWhile IsWhite str) of
             (neg, r) \<Rightarrow>
               let ds = takeWhile IsDigit r;
                   rest = dropWhile IsWhite (dropWhile IsDigit r);
                   v = (if neg then - decimal_value ds else decimal_value ds)
               in if ds = [] \<or> \<not> list_all (\<lambda>c. c = CHR 0x00) rest then None
                  else if - 2147483648 \<le> v \<and> v \<le> 2147483647 then Some v
                  else None))"

definition out_int :: "int option \<Rightarrow> int" where
  "out_int r = (case r of None \<Rightarrow> 0 | Some v \<Rightarrow> v)"

definition double_TryParse :: "string option \<Rightarrow> real option" where
  "double_TryParse s =
     (case s of
        None \<Rightarrow> None
      | Some str \<Rightarrow>
          (case number_sign (dropWhile IsWhite str) of
             (neg, r) \<Rightarrow>
               (case integral_digits False r of
                  (ip, r1) \<Rightarrow>
                    (case fraction_digits r1 of
                       (fp, r2) \<Rightarrow>
                         if ip = [] \<and> fp = [] then None
                         else
                           (case exponent_part r2 of
                              (ex, r3) \<Rightarrow>
                                let m = real_of_int (decimal_value (ip @ fp));
                                    sc = ex - int (length fp);
                                    a = (if 0 \<le> sc then m * 10 ^ nat sc else m / 10 ^ nat (- sc));
                                    v = (if neg then - a else a)
                                in if \<not> list_all (\<lambda>c. c = CHR 0x00) (dropWhile IsWhite r3)
                                   then None
                                   else Some v)))))"

definition out_double :: "real option \<Rightarrow> real" where
  "out_double r = (case r of None \<Rightarrow> 0 | Some v \<Rightarrow> v)"

text \<open>
  \<^verbatim>\<open>Math.Round(x)\<close>: the nearest integer, a midpoint going to the even neighbour.
\<close>

definition Math_Round :: "real \<Rightarrow> real" where
  "Math_Round x =
     (let f = \<lfloor>x\<rfloor>; d = x - of_int f
      in if d < 1 / 2 then of_int f
         else if 1 / 2 < d then of_int (f + 1)
         else if even f then of_int f
         else of_int (f + 1))"

subsection \<open>The fields of the indicator\<close>

record GammaLevel =
  Strike :: real
  Gex :: real
  FuturesPrice :: real
  IsResistance :: bool

record OpenGamma =
  currentRegime :: string
  previousRegime :: string
  regimeCode :: int
  lastUpdate :: string
  indexPrice :: real
  futuresPrice :: real
  spread :: real
  indexSymbol :: string
  lastClosePrice :: real
  gammaLevels :: "GammaLevel list"

text \<open>The field initialisers; \<open>affinity\<close> is the index symbol chosen when the data is loaded.\<close>

definition OpenGamma_new :: "string \<Rightarrow> OpenGamma" where
  "OpenGamma_new affinity =
     \<lparr>currentRegime = ''WAITING'', previousRegime = ''---'', regimeCode = 0, lastUpdate = [],
      indexPrice = 0, futuresPrice = 0, spread = 0, indexSymbol = affinity, lastClosePrice = 0,
      gammaLevels = []\<rparr>"

text \<open>\<^verbatim>\<open>OnBarUpdate\<close>: \<open>close0\<close> is \<^verbatim>\<open>Close[0]\<close>\<close>

definition OnBarUpdate :: "int \<Rightarrow> real \<Rightarrow> OpenGamma \<Rightarrow> OpenGamma" where
  "OnBarUpdate CurrentBar close0 st =
     (if 0 < CurrentBar then st\<lparr>lastClosePrice := close0\<rparr> else st)"

subsection \<open>ExtractNum\<close>

text \<open>
  \<^verbatim>\<open>while (valStart < json.Length && !char.IsDigit(json[valStart])
         && json[valStart] != '-' && json[valStart] != '.') valStart++;\<close>
\<close>

function ExtractNum_valStart :: "string \<Rightarrow> int \<Rightarrow> exn + int" where
  "ExtractNum_valStart json valStart =
     (if valStart < int (length json) then
        (case char_at json valStart of
           Inl e \<Rightarrow> Inl e
         | Inr c \<Rightarrow>
             if \<not> IsDigit c \<and> c \<noteq> CHR ''-'' \<and> c \<noteq> CHR ''.''
             then ExtractNum_valStart json (valStart + 1)
             else Inr valStart)
      else Inr valStart)"
  by pat_completeness auto
termination
  by (relation "measure (\<lambda>(json, valStart). nat (int (length json) - valStart))") auto

text \<open>
  \<^verbatim>\<open>while (valEnd < json.Length && (char.IsDigit(json[valEnd]) || json[valEnd] == '.'
         || json[valEnd] == '-' || json[valEnd] == 'e' || json[valEnd] == 'E'
         || json[valEnd] == '+')) valEnd++;\<close>
\<close>

function ExtractNum_valEnd :: "string \<Rightarrow> int \<Rightarrow> exn + int" where
  "ExtractNum_valEnd json valEnd =
     (if valEnd < int (length json) then
        (case char_at json valEnd of
           Inl e \<Rightarrow> Inl e
         | Inr c \<Rightarrow>
             if IsDigit c \<or> c = CHR ''.'' \<or> c = CHR ''-'' \<or> c = CHR ''e'' \<or> c = CHR ''E''
                \<or> c = CHR ''+''
             then ExtractNum_valEnd json (valEnd + 1)
             else Inr valEnd)
      else Inr valEnd)"
  by pat_completeness auto
termination
  by (relation "measure (\<lambda>(json, valEnd). nat (int (length json) - valEnd))") auto

text \<open>The concatenation \<^verbatim>\<open>"\"" + key + "\""\<close>\<close>

definition quoted :: "string \<Rightarrow> string" where
  "quoted key = [CHR 0x22] @ key @ [CHR 0x22]"

definition ExtractNum :: "string \<Rightarrow> string \<Rightarrow> exn + real" where
  "ExtractNum json key =
     (let keyIdx = IndexOf json (quoted key)
      in if keyIdx < 0 then Inr 0
         else
           (case ExtractNum_valStart json (keyIdx + int (length key) + 3) of
              Inl e \<Rightarrow> Inl e
            | Inr valStart \<Rightarrow>
                if int (length json) \<le> valStart then Inr 0
                else
                  (case ExtractNum_valEnd json valStart of
                     Inl e \<Rightarrow> Inl e
                   | Inr valEnd \<Rightarrow>
                       (case Substring json valStart (valEnd - valStart) of
                          Inl e \<Rightarrow> Inl e
                        | Inr tok \<Rightarrow>
                            (case double_TryParse (Some tok) of
                               Some result \<Rightarrow> Inr result
                             | None \<Rightarrow> Inr 0)))))"

subsection \<open>ParseGammaLevelObject and ParseGammaLevels\<close>

text \<open>
  The body of \<^verbatim>\<open>ParseGammaLevelObject\<close> is one \<^verbatim>\<open>try\<close> whose handler only logs: an
  exception of \<^verbatim>\<open>ExtractNum\<close> leaves the list as it is.
\<close>

definition ParseGammaLevelObject :: "string \<Rightarrow> OpenGamma \<Rightarrow> OpenGamma" where
  "ParseGammaLevelObject objJson st =
     (case ExtractNum objJson ''strike'' of
        Inl e \<Rightarrow> st
      | Inr strike \<Rightarrow>
          (case ExtractNum objJson ''gex'' of
             Inl e \<Rightarrow> st
           | Inr gex \<Rightarrow>
               if 0 < strike then
                 (let futuresLevel = strike - spread st
                  in st\<lparr>gammaLevels := gammaLevels st @
                       [\<lparr>Strike = strike, Gex = gex, FuturesPrice = futuresLevel,
                         IsResistance = (0 < gex)\<rparr>]\<rparr>)
               else st))"

text \<open>
  The search for the closing bracket: \<^verbatim>\<open>for (int i = arrStart; i < json.Length; i++)\<close>
  with its \<^verbatim>\<open>break\<close>; the result is \<^verbatim>\<open>arrEnd\<close>.
\<close>

function ParseGammaLevels_arrEnd :: "string \<Rightarrow> int \<Rightarrow> int \<Rightarrow> exn + int" where
  "ParseGammaLevels_arrEnd json i bracketCount =
     (if i < int (length json) then
        (case char_at json i of
           Inl e \<Rightarrow> Inl e
         | Inr c \<Rightarrow>
             if c = CHR ''['' then ParseGammaLevels_arrEnd json (i + 1) (bracketCount + 1)
             else if c = CHR '']'' then
               (if bracketCount - 1 = 0 then Inr i
                else ParseGammaLevels_arrEnd json (i + 1) (bracketCount - 1))
             else ParseGammaLevels_arrEnd json (i + 1) bracketCount)
      else Inr (- 1))"
  by pat_completeness auto
termination
  by (relation "measure (\<lambda>(json, i, bracketCount). nat (int (length json) - i))") auto

text \<open>
  The scan for the objects: \<^verbatim>\<open>for (int i = 0; i < arrContent.Length; i++)\<close>, with the
  locals \<^verbatim>\<open>braceCount\<close> and \<^verbatim>\<open>currentStart\<close>.
\<close>

function ParseGammaLevels_objects ::
  "string \<Rightarrow> int \<Rightarrow> int \<Rightarrow> int \<Rightarrow> OpenGamma \<Rightarrow> exn option \<times> OpenGamma" where
  "ParseGammaLevels_objects arrContent i braceCount currentStart st =
     (if i < int (length arrContent) then
        (case char_at arrContent i of
           Inl e \<Rightarrow> (Some e, st)
         | Inr c \<Rightarrow>
             if c = CHR ''{'' then
               ParseGammaLevels_objects arrContent (i + 1) (braceCount + 1)
                 (if braceCount = 0 then i else currentStart) st
             else if c = CHR ''}'' then
               (if braceCount - 1 = 0 \<and> 0 \<le> currentStart then
                  (case Substring arrContent currentStart (i - currentStart + 1) of
                     Inl e \<Rightarrow> (Some e, st)
                   | Inr objJson \<Rightarrow>
                       ParseGammaLevels_objects arrContent (i + 1) (braceCount - 1) (- 1)
                         (ParseGammaLevelObject objJson st))
                else ParseGammaLevels_objects arrContent (i + 1) (braceCount - 1) currentStart st)
             else ParseGammaLevels_objects arrContent (i + 1) braceCount currentStart st)
      else (None, st))"
  by pat_completeness auto
termination
  by (relation "measure (\<lambda>(arrContent, i, braceCount, currentStart, st).
        nat (int (length arrContent) - i))") auto

text \<open>\<^verbatim>\<open>indexSymbol == "NDX" ? "gamma_levels_ndx" : "gamma_levels_spx"\<close>\<close>

definition levelsKey_of :: "string \<Rightarrow> string" where
  "levelsKey_of symb = (if symb = ''NDX'' then ''gamma_levels_ndx'' else ''gamma_levels_spx'')"

definition ParseGammaLevels :: "string \<Rightarrow> OpenGamma \<Rightarrow> exn option \<times> OpenGamma" where
  "ParseGammaLevels json st =
     (let levelsKey = levelsKey_of (indexSymbol st);
          st = st\<lparr>gammaLevels := []\<rparr>;
          keyIdx = IndexOf json (quoted levelsKey)
      in if keyIdx < 0 then (None, st)
         else
           (case IndexOf_char json (CHR ''['') keyIdx of
              Inl e \<Rightarrow> (Some e, st)
            | Inr arrStart \<Rightarrow>
                if arrStart < 0 then (None, st)
                else
                  (case ParseGammaLevels_arrEnd json arrStart 0 of
                     Inl e \<Rightarrow> (Some e, st)
                   | Inr arrEnd \<Rightarrow>
                       if arrEnd < 0 then (None, st)
                       else
                         (case Substring json (arrStart + 1) (arrEnd - arrStart - 1) of
                            Inl e \<Rightarrow> (Some e, st)
                          | Inr arrContent \<Rightarrow>
                              if IsNullOrWhiteSpace arrContent then (None, st)
                              else ParseGammaLevels_objects arrContent 0 0 (- 1) st))))"

subsection \<open>ParseRegimeUpdate\<close>

text \<open>
  The statements of \<^verbatim>\<open>ParseRegimeUpdate\<close> up to the end of its first \<^verbatim>\<open>lock\<close>, run by
  the socket thread. \<open>now\<close> is \<^verbatim>\<open>DateTime.Now.ToString("HH:mm:ss")\<close>.
\<close>

definition ParseRegimeUpdate_lock :: "string \<Rightarrow> string \<Rightarrow> OpenGamma \<Rightarrow> exn option \<times> OpenGamma" where
  "ParseRegimeUpdate_lock now json st =
     (case ExtractJsonValue json ''regime'' of
        Inl e \<Rightarrow> (Some e, st)
      | Inr r \<Rightarrow>
          (let newRegime = (case r of None \<Rightarrow> ''UNKNOWN'' | Some v \<Rightarrow> v);
               st = (if currentRegime st \<noteq> ''WAITING'' \<and> currentRegime st \<noteq> newRegime
                     then st\<lparr>previousRegime := currentRegime st\<rparr> else st);
               st = st\<lparr>currentRegime := newRegime\<rparr>
           in case ExtractJsonValue json ''regime_code'' of
                Inl e \<Rightarrow> (Some e, st)
              | Inr c \<Rightarrow>
                  (let st = st\<lparr>regimeCode := out_int (int_TryParse c)\<rparr>;
                       st = st\<lparr>lastUpdate := now\<rparr>
                   in if indexSymbol st = ''NDX'' then
                        (case ExtractJsonValue json ''spot_ndx'' of
                           Inl e \<Rightarrow> (Some e, st)
                         | Inr v \<Rightarrow> (None, st\<lparr>indexPrice := out_double (double_TryParse v)\<rparr>))
                      else if indexSymbol st = ''SPX'' then
                        (case ExtractJsonValue json ''spot_spx'' of
                           Inl e \<Rightarrow> (Some e, st)
                         | Inr v \<Rightarrow> (None, st\<lparr>indexPrice := out_double (double_TryParse v)\<rparr>))
                      else (None, st))))"

text \<open>
  The block handed to the dispatcher of the chart, run by the UI thread inside its
  own \<^verbatim>\<open>try\<close>.
\<close>

definition ParseRegimeUpdate_dispatch :: "string \<Rightarrow> OpenGamma \<Rightarrow> exn option \<times> OpenGamma" where
  "ParseRegimeUpdate_dispatch jsonCopy st =
     (if 0 < lastClosePrice st then
        (let st = st\<lparr>futuresPrice := lastClosePrice st\<rparr>;
             st = (if 0 < indexPrice st
                   then st\<lparr>spread := Math_Round (indexPrice st) - Math_Round (futuresPrice st)\<rparr>
                   else st)
         in ParseGammaLevels jsonCopy st)
      else (None, st))"

text \<open>
  One call of \<^verbatim>\<open>ParseRegimeUpdate\<close>. \<open>ChartControl\<close> says that the chart control of the
  host is not \<^verbatim>\<open>null\<close>. Both handlers only log, so an exception leaves the fields as
  they were when it was thrown. \<^verbatim>\<open>InvokeAsync\<close> queues the block; here it runs at once,
  which is the run in which no other line and no bar update comes in between.
\<close>

definition ParseRegimeUpdate :: "bool \<Rightarrow> string \<Rightarrow> string \<Rightarrow> OpenGamma \<Rightarrow> OpenGamma" where
  "ParseRegimeUpdate ChartControl now json st =
     (case ParseRegimeUpdate_lock now json st of
        (Some e, st) \<Rightarrow> st
      | (None, st) \<Rightarrow>
          if ChartControl then snd (ParseRegimeUpdate_dispatch json st) else st)"

subsection \<open>What the decoder reads, stated on the text\<close>

text \<open>
  The definitions of this subsection are not translations of code. They say, by
  recursion on the text and without indices, which parts of a line the loops above
  select; the lemmas below prove that the loops select exactly these.
\<close>

text \<open>The text that follows the first \<^verbatim>\<open>"key":\<close> and the white space after it.\<close>

definition value_text :: "string \<Rightarrow> string \<Rightarrow> string" where
  "value_text json key =
     dropWhile IsWhiteSpace
       (drop (nat (IndexOf json (key_pattern key)) + length (key_pattern key)) json)"

text \<open>
  The scalar of a key: absent when the key pattern does not occur, when nothing but
  white space follows it, and when a quote opens that is never closed.
\<close>

definition scalar_value :: "string \<Rightarrow> string \<Rightarrow> string option" where
  "scalar_value json key =
     (if \<not> sublist (key_pattern key) json then None
      else
        (case value_text json key of
           [] \<Rightarrow> None
         | c # cs \<Rightarrow>
             if c = CHR 0x22 then
               (if CHR 0x22 \<in> set cs then Some (takeWhile (\<lambda>x. x \<noteq> CHR 0x22) cs) else None)
             else Some (Trim (takeWhile (\<lambda>x. x \<noteq> CHR '','' \<and> x \<noteq> CHR ''}'') (c # cs)))))"

text \<open>The label, the code and the index price that a line gives.\<close>

definition new_regime :: "string \<Rightarrow> string" where
  "new_regime json = (case scalar_value json ''regime'' of None \<Rightarrow> ''UNKNOWN'' | Some v \<Rightarrow> v)"

definition new_regimeCode :: "string \<Rightarrow> int" where
  "new_regimeCode json = out_int (int_TryParse (scalar_value json ''regime_code''))"

definition new_indexPrice :: "string \<Rightarrow> OpenGamma \<Rightarrow> real" where
  "new_indexPrice json st =
     (if indexSymbol st = ''NDX'' then out_double (double_TryParse (scalar_value json ''spot_ndx''))
      else if indexSymbol st = ''SPX'' then out_double (double_TryParse (scalar_value json ''spot_spx''))
      else indexPrice st)"

text \<open>
  The offset of the closing bracket that brings the bracket count to zero, in a text
  read with the count \<open>d\<close>.
\<close>

fun matching_close :: "string \<Rightarrow> int \<Rightarrow> nat option" where
  "matching_close [] d = None"
| "matching_close (c # cs) d =
     (if c = CHR ''['' then map_option Suc (matching_close cs (d + 1))
      else if c = CHR '']'' then
        (if d - 1 = 0 then Some 0 else map_option Suc (matching_close cs (d - 1)))
      else map_option Suc (matching_close cs d))"

text \<open>
  The text from the first opening bracket at or after the first occurrence of the
  quoted key; empty when the key or the bracket is missing.
\<close>

definition from_bracket :: "string \<Rightarrow> string \<Rightarrow> string" where
  "from_bracket levelsKey json =
     (if sublist (quoted levelsKey) json
      then dropWhile (\<lambda>c. c \<noteq> CHR ''['') (drop (nat (IndexOf json (quoted levelsKey))) json)
      else [])"

text \<open>The text between that bracket and its matching closing bracket.\<close>

definition array_content :: "string \<Rightarrow> string \<Rightarrow> string option" where
  "array_content levelsKey json =
     (case matching_close (from_bracket levelsKey json) 0 of
        None \<Rightarrow> None
      | Some n \<Rightarrow> Some (take (n - 1) (tl (from_bracket levelsKey json))))"

text \<open>
  The objects of an array text: every stretch from an opening brace read at brace
  count zero to the closing brace that brings the count back to zero. \<open>cur\<close> is the
  text of the object being read, if one is open.
\<close>

fun objects_of :: "string \<Rightarrow> int \<Rightarrow> string option \<Rightarrow> string list" where
  "objects_of [] braceCount cur = []"
| "objects_of (c # cs) braceCount cur =
     (if c = CHR ''{'' then
        objects_of cs (braceCount + 1)
          (if braceCount = 0 then Some [c] else map_option (\<lambda>t. t @ [c]) cur)
      else if c = CHR ''}'' then
        (case (if braceCount - 1 = 0 then cur else None) of
           Some t \<Rightarrow> (t @ [c]) # objects_of cs (braceCount - 1) None
         | None \<Rightarrow> objects_of cs (braceCount - 1) (map_option (\<lambda>t. t @ [c]) cur))
      else objects_of cs braceCount (map_option (\<lambda>t. t @ [c]) cur))"

text \<open>
  The text of the object that is open when the scan is at index \<open>i\<close>, in terms of the
  local \<^verbatim>\<open>currentStart\<close>.
\<close>

definition open_text :: "string \<Rightarrow> int \<Rightarrow> int \<Rightarrow> string option" where
  "open_text arr i currentStart =
     (if 0 \<le> currentStart then Some (take (nat (i - currentStart)) (drop (nat currentStart) arr))
      else None)"

text \<open>The raw record of an object: its strike and its exposure.\<close>

definition raw_level :: "string \<Rightarrow> real \<times> real" where
  "raw_level objJson = (projr (ExtractNum objJson ''strike''), projr (ExtractNum objJson ''gex''))"

text \<open>The raw decoded level list of a line, for the index symbol \<open>symb\<close>.\<close>

definition raw_levels :: "string \<Rightarrow> string \<Rightarrow> (real \<times> real) list" where
  "raw_levels symb json =
     (case array_content (levelsKey_of symb) json of
        None \<Rightarrow> []
      | Some arrContent \<Rightarrow> map raw_level (objects_of arrContent 0 None))"

text \<open>The level record of a raw record under a spread.\<close>

definition adjusted_level :: "real \<Rightarrow> real \<times> real \<Rightarrow> GammaLevel" where
  "adjusted_level sp r =
     \<lparr>Strike = fst r, Gex = snd r, FuturesPrice = fst r - sp, IsResistance = (0 < snd r)\<rparr>"

text \<open>The spread after the dispatcher block has run on a state with a sampled price.\<close>

definition new_spread :: "OpenGamma \<Rightarrow> real" where
  "new_spread st =
     (if 0 < indexPrice st then Math_Round (indexPrice st) - Math_Round (lastClosePrice st)
      else spread st)"

text \<open>
  Opening brackets minus closing brackets of a text, and the arrays that are not
  terminated: an opening bracket is there, and after no character from it on is
  the count back at zero. By \<open>unterminated_iff\<close> below these are exactly the lines
  with an opening bracket in which the scan finds no closing bracket.
\<close>

definition bracket_depth :: "string \<Rightarrow> int" where
  "bracket_depth s =
     int (length (filter (\<lambda>c. c = CHR ''['') s)) - int (length (filter (\<lambda>c. c = CHR '']'') s))"

definition unterminated :: "string \<Rightarrow> string \<Rightarrow> bool" where
  "unterminated levelsKey json =
     (from_bracket levelsKey json \<noteq> [] \<and>
      list_all (\<lambda>n. 0 < bracket_depth (take n (from_bracket levelsKey json)))
        [1 ..< Suc (length (from_bracket levelsKey json))])"

subsection \<open>Lines and states of the examples\<close>

definition line_levels :: string where
  \<open>line_levels =
     ''{"regime":"GRIND_UP","regime_code":1,"spot_spx":5000.5,"gamma_levels_spx":[{"strike":100,"gex":5000},{"strike":110,"gex":-3000}]}''\<close>

definition line_crash :: string where
  \<open>line_crash = ''{"regime":"CRASH","regime_code":4,"spot_spx":4990.25,"gamma_levels_spx":[]}''\<close>

definition line_spread :: string where
  \<open>line_spread = ''{"regime":"CHOP","regime_code":3,"spot_spx":15000.6,"gamma_levels_spx":[]}''\<close>

definition line_no_spot :: string where
  \<open>line_no_spot = ''{"regime":"CHOP","regime_code":3}''\<close>

definition line_unterminated :: string where
  \<open>line_unterminated =
     ''{"regime":"CHOP","regime_code":3,"spot_spx":5000.5,"gamma_levels_spx":[{strike:1''\<close>

definition line_no_regime :: string where
  \<open>line_no_regime = ''{"regime_code":2,"spot_spx":5000.5}''\<close>

definition line_open_quote :: string where
  \<open>line_open_quote = ''{"regime":"CRA''\<close>

definition line_nonpositive :: string where
  \<open>line_nonpositive = ''{"gamma_levels_spx":[{"strike":0,"gex":5000},{"strike":-5,"gex":1}]}''\<close>

text \<open>A state whose current label is a real one.\<close>

definition st_chop :: OpenGamma where
  "st_chop = (OpenGamma_new ''SPX'')\<lparr>currentRegime := ''CHOP''\<rparr>"

text \<open>A state that holds one level and a sampled price.\<close>

definition st_levels :: OpenGamma where
  "st_levels =
     (OpenGamma_new ''SPX'')
       \<lparr>futuresPrice := 4990, spread := 7, lastClosePrice := 4998,
        gammaLevels := [\<lparr>Strike = 90, Gex = 1, FuturesPrice = 83, IsResistance = True\<rparr>]\<rparr>"

text \<open>A state with a spread and an instrument price, before any bar has been sampled.\<close>

definition st_idle :: OpenGamma where
  "st_idle = (OpenGamma_new ''SPX'')\<lparr>futuresPrice := 4990, spread := 7\<rparr>"

text \<open>The state after the first sampled bar.\<close>

definition st_sampled :: OpenGamma where
  "st_sampled = OnBarUpdate 1 15002.1 (OpenGamma_new ''SPX'')"

definition line_negative_spot :: string where
  \<open>line_negative_spot = ''{"regime":"CHOP","spot_spx":-3.5}''\<close>

text \<open>A state of an indicator on a chart that is neither an NQ nor an ES chart.\<close>

definition st_no_affinity :: OpenGamma where
  "st_no_affinity = (OpenGamma_new [])\<lparr>indexPrice := 42\<rparr>"

section \<open>The loops against the text\<close>

text \<open>
  The recursion equations of the loops are unfolded by hand, one step at a time.
\<close>

declare ExtractJsonValue_skip.simps [simp del] ExtractJsonValue_end.simps [simp del]
  ExtractNum_valStart.simps [simp del] ExtractNum_valEnd.simps [simp del]
  ParseGammaLevels_arrEnd.simps [simp del] ParseGammaLevels_objects.simps [simp del]

lemma char_at_Inr: "0 \<le> i \<Longrightarrow> i < int (length s) \<Longrightarrow> char_at s i = Inr (s ! nat i)"
  by (simp add: char_at_def)

lemma drop_nat_Cons:
  "0 \<le> i \<Longrightarrow> i < int (length s) \<Longrightarrow> drop (nat i) s = s ! nat i # drop (nat (i + 1)) s"
  by (simp add: Cons_nth_drop_Suc nat_add_distrib)

lemma drop_nat_Nil: "\<not> i < int (length s) \<Longrightarrow> drop (nat i) s = []"
  by simp

lemma ExtractJsonValue_skip_eq:
  "0 \<le> i \<Longrightarrow>
   ExtractJsonValue_skip json i =
     Inr (i + int (length (takeWhile IsWhiteSpace (drop (nat i) json))))"
proof (induction json i rule: ExtractJsonValue_skip.induct)
  case (1 json i)
  show ?case
  proof (cases "i < int (length json)")
    case True
    with 1 show ?thesis
      by (subst ExtractJsonValue_skip.simps)
         (simp add: char_at_Inr drop_nat_Cons [of i json])
  next
    case False
    then show ?thesis
      by (subst ExtractJsonValue_skip.simps) (simp add: drop_nat_Nil)
  qed
qed

lemma ExtractJsonValue_end_eq:
  "0 \<le> i \<Longrightarrow>
   ExtractJsonValue_end json i =
     Inr (i + int (length (takeWhile (\<lambda>c. c \<noteq> CHR '','' \<and> c \<noteq> CHR ''}'') (drop (nat i) json))))"
proof (induction json i rule: ExtractJsonValue_end.induct)
  case (1 json i)
  show ?case
  proof (cases "i < int (length json)")
    case True
    with 1 show ?thesis
      by (subst ExtractJsonValue_end.simps)
         (simp add: char_at_Inr drop_nat_Cons [of i json])
  next
    case False
    then show ?thesis
      by (subst ExtractJsonValue_end.simps) (simp add: drop_nat_Nil)
  qed
qed

lemma ExtractNum_valStart_eq:
  "0 \<le> i \<Longrightarrow>
   ExtractNum_valStart json i =
     Inr (i + int (length (takeWhile (\<lambda>c. \<not> IsDigit c \<and> c \<noteq> CHR ''-'' \<and> c \<noteq> CHR ''.'')
                             (drop (nat i) json))))"
proof (induction json i rule: ExtractNum_valStart.induct)
  case (1 json i)
  show ?case
  proof (cases "i < int (length json)")
    case True
    with 1 show ?thesis
      by (subst ExtractNum_valStart.simps)
         (simp add: char_at_Inr drop_nat_Cons [of i json])
  next
    case False
    then show ?thesis
      by (subst ExtractNum_valStart.simps) (simp add: drop_nat_Nil)
  qed
qed

lemma ExtractNum_valEnd_eq:
  "0 \<le> i \<Longrightarrow>
   ExtractNum_valEnd json i =
     Inr (i + int (length (takeWhile
        (\<lambda>c. IsDigit c \<or> c = CHR ''.'' \<or> c = CHR ''-'' \<or> c = CHR ''e'' \<or> c = CHR ''E'' \<or> c = CHR ''+'')
        (drop (nat i) json))))"
proof (induction json i rule: ExtractNum_valEnd.induct)
  case (1 json i)
  show ?case
  proof (cases "i < int (length json)")
    case True
    with 1 show ?thesis
      by (subst ExtractNum_valEnd.simps)
         (simp add: char_at_Inr drop_nat_Cons [of i json])
  next
    case False
    then show ?thesis
      by (subst ExtractNum_valEnd.simps) (simp add: drop_nat_Nil)
  qed
qed

lemma starts_with_prefix: "starts_with s pat = prefix pat s"
  by (induction s pat rule: starts_with.induct) auto

lemma IndexOf_scan_neg: "0 \<le> i \<Longrightarrow> (IndexOf_scan s i pat < 0) = (\<not> sublist pat s)"
  by (induction s arbitrary: i) (simp_all add: starts_with_prefix sublist_Cons_right)

lemma IndexOf_scan_found:
  "0 \<le> i \<Longrightarrow> sublist pat s \<Longrightarrow>
   i \<le> IndexOf_scan s i pat \<and>
   IndexOf_scan s i pat + int (length pat) \<le> i + int (length s) \<and>
   prefix pat (drop (nat (IndexOf_scan s i pat - i)) s)"
proof (induction s arbitrary: i)
  case Nil
  then show ?case by simp
next
  case (Cons c cs)
  show ?case
  proof (cases "prefix pat (c # cs)")
    case True
    then show ?thesis
      using prefix_length_le [OF True] by (simp add: starts_with_prefix)
  next
    case False
    with Cons.prems have sub: "sublist pat cs"
      by (simp add: sublist_Cons_right)
    from Cons.prems have "0 \<le> i + 1" by simp
    note ih = Cons.IH [OF this sub]
    have "nat (IndexOf_scan cs (i + 1) pat - i) = Suc (nat (IndexOf_scan cs (i + 1) pat - (i + 1)))"
      using ih by linarith
    with ih False show ?thesis
      by (simp add: starts_with_prefix)
  qed
qed

lemma IndexOf_neg: "(IndexOf s pat < 0) = (\<not> sublist pat s)"
  by (simp add: IndexOf_def IndexOf_scan_neg)

lemma IndexOf_found:
  assumes "sublist pat s"
  shows "0 \<le> IndexOf s pat" and "IndexOf s pat + int (length pat) \<le> int (length s)"
    and "prefix pat (drop (nat (IndexOf s pat)) s)"
  using IndexOf_scan_found [of 0 pat s] assms by (simp_all add: IndexOf_def)

lemma IndexOf_char_scan_eq:
  "IndexOf_char_scan xs i c =
     (if c \<in> set xs then i + int (length (takeWhile (\<lambda>x. x \<noteq> c) xs)) else - 1)"
  by (induction xs arbitrary: i) auto

lemma Substring_Inr:
  "0 \<le> i \<Longrightarrow> 0 \<le> n \<Longrightarrow> i + n \<le> int (length s) \<Longrightarrow>
   Substring s i n = Inr (take (nat n) (drop (nat i) s))"
  by (simp add: Substring_def)

lemma ExtractJsonValue_text:
  "ExtractJsonValue json key =
     Inr (if \<not> sublist (key_pattern key) json then None
          else
            (case value_text json key of
               [] \<Rightarrow> None
             | c # cs \<Rightarrow>
                 if c = CHR 0x22 then
                   (if CHR 0x22 \<in> set cs then Some (takeWhile (\<lambda>x. x \<noteq> CHR 0x22) cs) else None)
                 else Some (Trim (takeWhile (\<lambda>x. x \<noteq> CHR '','' \<and> x \<noteq> CHR ''}'') (c # cs)))))"
proof (cases "sublist (key_pattern key) json")
  case False
  then have "IndexOf json (key_pattern key) < 0"
    by (simp add: IndexOf_neg)
  with False show ?thesis
    by (simp add: ExtractJsonValue_def Let_def)
next
  case True
  define k where "k = IndexOf json (key_pattern key)"
  define j0 where "j0 = k + int (length (key_pattern key))"
  define j where "j = j0 + int (length (takeWhile IsWhiteSpace (drop (nat j0) json)))"
  have k: "0 \<le> k" "j0 \<le> int (length json)"
    using IndexOf_found [OF True] by (simp_all add: k_def j0_def)
  then have j0: "0 \<le> j0" "nat j0 = nat k + length (key_pattern key)"
    by (simp_all add: j0_def nat_add_distrib)
  have skip: "ExtractJsonValue_skip json j0 = Inr j"
    using j0 by (simp add: ExtractJsonValue_skip_eq j_def)
  have j: "0 \<le> j" "j0 \<le> j"
    using j0 by (simp_all add: j_def)
  have natj: "nat j = nat j0 + length (takeWhile IsWhiteSpace (drop (nat j0) json))"
    using j0 by (simp add: j_def nat_add_distrib)
  have v: "value_text json key = drop (nat j) json"
    by (simp add: value_text_def k_def [symmetric] j0(2) [symmetric] dropWhile_eq_drop natj add.commute)
  have notneg: "\<not> k < 0" using k by simp
  have unfold: "ExtractJsonValue json key =
      (if int (length json) \<le> j then Inr None
       else
         (case char_at json j of
            Inl e \<Rightarrow> Inl e
          | Inr c \<Rightarrow>
              if c = CHR 0x22 then
                (case IndexOf_char json (CHR 0x22) (j + 1) of
                   Inl e \<Rightarrow> Inl e
                 | Inr endIdx \<Rightarrow>
                     if endIdx < 0 then Inr None
                     else
                       (case Substring json (j + 1) (endIdx - j - 1) of
                          Inl e \<Rightarrow> Inl e
                        | Inr v \<Rightarrow> Inr (Some v)))
              else
                (case ExtractJsonValue_end json j of
                   Inl e \<Rightarrow> Inl e
                 | Inr endIdx \<Rightarrow>
                     (case Substring json j (endIdx - j) of
                        Inl e \<Rightarrow> Inl e
                      | Inr v \<Rightarrow> Inr (Some (Trim v))))))"
    using notneg skip
    by (simp add: ExtractJsonValue_def Let_def k_def [symmetric] j0_def [symmetric])
  show ?thesis
  proof (cases "int (length json) \<le> j")
    case short: True
    then have "value_text json key = []"
      using j by (simp add: v)
    with short True show ?thesis
      by (simp add: unfold)
  next
    case long: False
    then have lt: "j < int (length json)" by simp
    define c where "c = json ! nat j"
    define cs where "cs = drop (nat (j + 1)) json"
    have vc: "value_text json key = c # cs"
      using drop_nat_Cons [OF j(1) lt] by (simp add: v c_def cs_def)
    have ch: "char_at json j = Inr c"
      using j lt by (simp add: char_at_Inr c_def)
    show ?thesis
    proof (cases "c = CHR 0x22")
      case quote: True
      have idx: "IndexOf_char json (CHR 0x22) (j + 1) =
          Inr (if CHR 0x22 \<in> set cs
               then j + 1 + int (length (takeWhile (\<lambda>x. x \<noteq> CHR 0x22) cs)) else - 1)"
        using j lt by (simp add: IndexOf_char_def IndexOf_char_scan_eq cs_def)
      show ?thesis
      proof (cases "CHR 0x22 \<in> set cs")
        case closed: True
        define n where "n = length (takeWhile (\<lambda>x. x \<noteq> CHR 0x22) cs)"
        have "n \<le> length cs"
          by (simp add: n_def length_takeWhile_le)
        then have "j + 1 + int n \<le> int (length json)"
          using j lt by (simp add: cs_def)
        then have "Substring json (j + 1) (j + 1 + int n - j - 1) = Inr (take n cs)"
          using j by (simp add: Substring_Inr cs_def)
        moreover have "take n cs = takeWhile (\<lambda>x. x \<noteq> CHR 0x22) cs"
          unfolding n_def by (rule takeWhile_eq_take [symmetric])
        ultimately show ?thesis
          using True long ch quote closed j
          by (simp add: unfold idx vc n_def [symmetric])
      next
        case opened: False
        with True long ch quote show ?thesis
          by (simp add: unfold idx vc)
      qed
    next
      case token: False
      define n where
        "n = length (takeWhile (\<lambda>x. x \<noteq> CHR '','' \<and> x \<noteq> CHR ''}'') (drop (nat j) json))"
      have e: "ExtractJsonValue_end json j = Inr (j + int n)"
        using j by (simp add: ExtractJsonValue_end_eq n_def)
      have "n \<le> length (drop (nat j) json)"
        unfolding n_def by (rule length_takeWhile_le)
      then have "j + int n \<le> int (length json)"
        using j lt by simp
      then have "Substring json j (j + int n - j) = Inr (take n (drop (nat j) json))"
        using j by (simp add: Substring_Inr)
      moreover have "take n (drop (nat j) json) =
          takeWhile (\<lambda>x. x \<noteq> CHR '','' \<and> x \<noteq> CHR ''}'') (c # cs)"
        unfolding n_def vc [symmetric] v by (rule takeWhile_eq_take [symmetric])
      ultimately show ?thesis
        using True long ch token
        by (simp add: unfold e vc)
    qed
  qed
qed

lemma ExtractJsonValue_eq: "ExtractJsonValue json key = Inr (scalar_value json key)"
  by (simp only: ExtractJsonValue_text scalar_value_def)

lemma ExtractNum_total: "\<exists>r. ExtractNum json key = Inr r"
proof (cases "IndexOf json (quoted key) < 0")
  case True
  then show ?thesis by (simp add: ExtractNum_def)
next
  case False
  define i where "i = IndexOf json (quoted key) + int (length key) + 3"
  define P where "P = (\<lambda>c. \<not> IsDigit c \<and> c \<noteq> CHR ''-'' \<and> c \<noteq> CHR ''.'')"
  define Q where "Q = (\<lambda>c. IsDigit c \<or> c = CHR ''.'' \<or> c = CHR ''-'' \<or> c = CHR ''e''
      \<or> c = CHR ''E'' \<or> c = CHR ''+'')"
  define valStart where "valStart = i + int (length (takeWhile P (drop (nat i) json)))"
  define n where "n = length (takeWhile Q (drop (nat valStart) json))"
  have i: "0 \<le> i" using False by (simp add: i_def)
  then have vs: "ExtractNum_valStart json i = Inr valStart" "0 \<le> valStart"
    by (simp_all add: ExtractNum_valStart_eq valStart_def P_def)
  then have ve: "ExtractNum_valEnd json valStart = Inr (valStart + int n)"
    by (simp add: ExtractNum_valEnd_eq n_def Q_def)
  show ?thesis
  proof (cases "int (length json) \<le> valStart")
    case True
    with False vs show ?thesis
      by (simp add: ExtractNum_def Let_def i_def [symmetric])
  next
    case long: False
    have "n \<le> length (drop (nat valStart) json)"
      unfolding n_def by (rule length_takeWhile_le)
    then have "valStart + int n \<le> int (length json)"
      using vs long by simp
    then have "Substring json valStart (valStart + int n - valStart) =
        Inr (take n (drop (nat valStart) json))"
      using vs by (simp add: Substring_Inr)
    with False long vs ve show ?thesis
      by (simp add: ExtractNum_def Let_def i_def [symmetric] split: option.split)
  qed
qed

lemma ParseGammaLevelObject_eq:
  "ParseGammaLevelObject objJson st =
     (if 0 < fst (raw_level objJson)
      then st\<lparr>gammaLevels := gammaLevels st @ [adjusted_level (spread st) (raw_level objJson)]\<rparr>
      else st)"
proof -
  obtain strike gex where
    "ExtractNum objJson ''strike'' = Inr strike" "ExtractNum objJson ''gex'' = Inr gex"
    using ExtractNum_total by blast
  then show ?thesis
    by (simp add: ParseGammaLevelObject_def raw_level_def adjusted_level_def)
qed

lemma fold_ParseGammaLevelObject:
  "fold ParseGammaLevelObject objs st =
     st\<lparr>gammaLevels := gammaLevels st @
          map (adjusted_level (spread st)) (filter (\<lambda>r. 0 < fst r) (map raw_level objs))\<rparr>"
  by (induction objs arbitrary: st) (simp_all add: ParseGammaLevelObject_eq)

lemma ParseGammaLevels_arrEnd_eq:
  "0 \<le> i \<Longrightarrow>
   ParseGammaLevels_arrEnd json i d =
     Inr (case matching_close (drop (nat i) json) d of None \<Rightarrow> - 1 | Some n \<Rightarrow> i + int n)"
proof (induction json i d rule: ParseGammaLevels_arrEnd.induct)
  case (1 json i d)
  show ?case
  proof (cases "i < int (length json)")
    case True
    with 1 show ?thesis
      by (subst ParseGammaLevels_arrEnd.simps)
         (simp add: char_at_Inr drop_nat_Cons [of i json] split: option.split)
  next
    case False
    then show ?thesis
      by (subst ParseGammaLevels_arrEnd.simps) (simp add: drop_nat_Nil)
  qed
qed

lemma matching_close_less: "matching_close s d = Some n \<Longrightarrow> n < length s"
  by (induction s arbitrary: d n) (auto split: if_splits)

lemma open_text_step:
  assumes "0 \<le> i" "i < int (length arr)" "currentStart \<le> i"
  shows "open_text arr (i + 1) currentStart =
     map_option (\<lambda>t. t @ [arr ! nat i]) (open_text arr i currentStart)"
proof (cases "0 \<le> currentStart")
  case True
  define k where "k = nat currentStart"
  define m where "m = nat (i - currentStart)"
  have nat_i: "nat i = k + m" "nat (i + 1 - currentStart) = Suc m"
    using assms True by (simp_all add: k_def m_def)
  have "m < length (drop k arr)"
    using assms True by (simp add: k_def m_def)
  then have "take (Suc m) (drop k arr) = take m (drop k arr) @ [drop k arr ! m]"
    by (rule take_Suc_conv_app_nth)
  moreover have "drop k arr ! m = arr ! nat i"
    using assms True by (simp add: nat_i k_def)
  ultimately show ?thesis
    using True by (simp add: open_text_def nat_i k_def [symmetric] m_def [symmetric])
next
  case False
  then show ?thesis by (simp add: open_text_def)
qed

lemma open_text_start:
  assumes "0 \<le> i" "i < int (length arr)"
  shows "open_text arr (i + 1) i = Some [arr ! nat i]"
proof -
  have "take (Suc 0) (drop (nat i) arr) = [arr ! nat i]"
    using assms by (simp add: take_Suc_conv_app_nth)
  with assms show ?thesis by (simp add: open_text_def)
qed

lemma ParseGammaLevels_objects_eq:
  "0 \<le> i \<Longrightarrow> currentStart \<le> i \<Longrightarrow>
   ParseGammaLevels_objects arr i braceCount currentStart st =
     (None, fold ParseGammaLevelObject
              (objects_of (drop (nat i) arr) braceCount (open_text arr i currentStart)) st)"
proof (induction arr i braceCount currentStart st rule: ParseGammaLevels_objects.induct)
  case (1 arr i braceCount currentStart st)
  show ?case
  proof (cases "i < int (length arr)")
    case False
    then show ?thesis
      by (subst ParseGammaLevels_objects.simps) (simp add: drop_nat_Nil)
  next
    case True
    define c where "c = arr ! nat i"
    have ch: "char_at arr i = Inr c"
      using 1 True by (simp add: char_at_Inr c_def)
    have dr: "drop (nat i) arr = c # drop (nat (i + 1)) arr"
      using 1 True by (simp add: drop_nat_Cons c_def)
    have step: "open_text arr (i + 1) currentStart =
        map_option (\<lambda>t. t @ [c]) (open_text arr i currentStart)"
      using 1 True by (simp add: open_text_step c_def)
    have start: "open_text arr (i + 1) i = Some [c]"
      using 1 True by (simp add: open_text_start c_def)
    have none: "open_text arr (i + 1) (- 1) = None"
      by (simp add: open_text_def)
    consider (brace_open) "c = CHR ''{''"
      | (brace_close) "c = CHR ''}''" "braceCount - 1 = 0 \<and> 0 \<le> currentStart"
      | (brace_inner) "c = CHR ''}''" "\<not> (braceCount - 1 = 0 \<and> 0 \<le> currentStart)"
      | (plain) "c \<noteq> CHR ''{''" "c \<noteq> CHR ''}''"
      by blast
    then show ?thesis
    proof cases
      case brace_open
      have "ParseGammaLevels_objects arr (i + 1) (braceCount + 1)
              (if braceCount = 0 then i else currentStart) st =
            (None, fold ParseGammaLevelObject
              (objects_of (drop (nat (i + 1)) arr) (braceCount + 1)
                 (open_text arr (i + 1) (if braceCount = 0 then i else currentStart))) st)"
        using 1 True ch brace_open by (intro "1.IH"(1)) auto
      with True ch brace_open show ?thesis
        by (subst ParseGammaLevels_objects.simps) (simp add: dr step start)
    next
      case brace_close
      define objJson where
        "objJson = take (nat (i - currentStart + 1)) (drop (nat currentStart) arr)"
      have sub: "Substring arr currentStart (i - currentStart + 1) = Inr objJson"
        using 1 True brace_close by (simp add: Substring_Inr objJson_def)
      have cur: "open_text arr i currentStart \<noteq> None"
        "objJson = the (open_text arr i currentStart) @ [c]"
        using step brace_close by (simp_all add: open_text_def objJson_def algebra_simps)
      have "ParseGammaLevels_objects arr (i + 1) (braceCount - 1) (- 1)
              (ParseGammaLevelObject objJson st) =
            (None, fold ParseGammaLevelObject
              (objects_of (drop (nat (i + 1)) arr) (braceCount - 1)
                 (open_text arr (i + 1) (- 1))) (ParseGammaLevelObject objJson st))"
        using 1 True ch brace_close sub by (intro "1.IH"(2)) auto
      with True ch brace_close sub cur show ?thesis
        by (subst ParseGammaLevels_objects.simps) (auto simp add: dr none)
    next
      case brace_inner
      have "ParseGammaLevels_objects arr (i + 1) (braceCount - 1) currentStart st =
            (None, fold ParseGammaLevelObject
              (objects_of (drop (nat (i + 1)) arr) (braceCount - 1)
                 (open_text arr (i + 1) currentStart)) st)"
        using 1 True ch brace_inner by (intro "1.IH"(3)) auto
      moreover have "(if braceCount - 1 = 0 then open_text arr i currentStart else None) = None"
        using brace_inner by (auto simp add: open_text_def)
      ultimately show ?thesis
        using True ch brace_inner
        by (subst ParseGammaLevels_objects.simps) (auto simp add: dr step)
    next
      case plain
      have "ParseGammaLevels_objects arr (i + 1) braceCount currentStart st =
            (None, fold ParseGammaLevelObject
              (objects_of (drop (nat (i + 1)) arr) braceCount
                 (open_text arr (i + 1) currentStart)) st)"
        using 1 True ch plain by (intro "1.IH"(4)) auto
      with True ch plain show ?thesis
        by (subst ParseGammaLevels_objects.simps) (simp add: dr step)
    qed
  qed
qed

lemma objects_of_no_close: "CHR ''}'' \<notin> set s \<Longrightarrow> objects_of s braceCount cur = []"
  by (induction s arbitrary: braceCount cur) auto

lemma objects_of_white: "IsNullOrWhiteSpace s \<Longrightarrow> objects_of s braceCount cur = []"
proof (rule objects_of_no_close)
  assume "IsNullOrWhiteSpace s"
  then have "\<forall>c \<in> set s. IsWhiteSpace c"
    by (simp add: IsNullOrWhiteSpace_def list_all_iff)
  moreover have "\<not> IsWhiteSpace (CHR ''}'')"
    by (simp add: IsWhiteSpace_def)
  ultimately show "CHR ''}'' \<notin> set s" by blast
qed

lemma ParseGammaLevels_eq:
  "ParseGammaLevels json st =
     (None, st\<lparr>gammaLevels :=
        map (adjusted_level (spread st))
          (filter (\<lambda>r. 0 < fst r) (raw_levels (indexSymbol st) json))\<rparr>)"
proof -
  define levelsKey where "levelsKey = levelsKey_of (indexSymbol st)"
  define st0 where "st0 = st\<lparr>gammaLevels := []\<rparr>"
  define k where "k = IndexOf json (quoted levelsKey)"
  define fb where "fb = from_bracket levelsKey json"
  have raw: "raw_levels (indexSymbol st) json =
      (case array_content levelsKey json of
         None \<Rightarrow> [] | Some arrContent \<Rightarrow> map raw_level (objects_of arrContent 0 None))"
    by (simp add: raw_levels_def levelsKey_def)
  have unfold: "ParseGammaLevels json st =
      (if k < 0 then (None, st0)
       else
         (case IndexOf_char json (CHR ''['') k of
            Inl e \<Rightarrow> (Some e, st0)
          | Inr arrStart \<Rightarrow>
              if arrStart < 0 then (None, st0)
              else
                (case ParseGammaLevels_arrEnd json arrStart 0 of
                   Inl e \<Rightarrow> (Some e, st0)
                 | Inr arrEnd \<Rightarrow>
                     if arrEnd < 0 then (None, st0)
                     else
                       (case Substring json (arrStart + 1) (arrEnd - arrStart - 1) of
                          Inl e \<Rightarrow> (Some e, st0)
                        | Inr arrContent \<Rightarrow>
                            if IsNullOrWhiteSpace arrContent then (None, st0)
                            else ParseGammaLevels_objects arrContent 0 0 (- 1) st0))))"
    by (simp only: ParseGammaLevels_def Let_def levelsKey_def k_def st0_def)
  have empty: "array_content levelsKey json = None \<Longrightarrow>
      (None, st0) = (None, st\<lparr>gammaLevels :=
        map (adjusted_level (spread st))
          (filter (\<lambda>r. 0 < fst r) (raw_levels (indexSymbol st) json))\<rparr>)"
    by (simp add: raw st0_def)
  show ?thesis
  proof (cases "sublist (quoted levelsKey) json")
    case False
    then have "k < 0" "array_content levelsKey json = None"
      by (simp_all add: k_def IndexOf_neg array_content_def from_bracket_def)
    then show ?thesis
      using empty by (simp add: unfold)
  next
    case True
    have k: "0 \<le> k" "k \<le> int (length json)"
      using IndexOf_found [OF True] by (simp_all add: k_def)
    have fb: "fb = dropWhile (\<lambda>c. c \<noteq> CHR ''['') (drop (nat k) json)"
      using True by (simp add: fb_def from_bracket_def k_def)
    define n where "n = length (takeWhile (\<lambda>c. c \<noteq> CHR ''['') (drop (nat k) json))"
    have idx: "IndexOf_char json (CHR ''['') k =
        Inr (if CHR ''['' \<in> set (drop (nat k) json) then k + int n else - 1)"
      using k by (simp add: IndexOf_char_def IndexOf_char_scan_eq n_def)
    show ?thesis
    proof (cases "CHR ''['' \<in> set (drop (nat k) json)")
      case False
      then have "fb = []"
        by (auto simp add: fb)
      then have "array_content levelsKey json = None"
        by (simp add: array_content_def fb_def [symmetric])
      with False k show ?thesis
        using empty by (simp add: unfold idx)
    next
      case bracket: True
      define arrStart where "arrStart = k + int n"
      have "n \<le> length (drop (nat k) json)"
        unfolding n_def by (rule length_takeWhile_le)
      then have arrStart: "0 \<le> arrStart" "arrStart \<le> int (length json)"
        "nat arrStart = nat k + n"
        using k by (simp_all add: arrStart_def nat_add_distrib)
      have fb_drop: "fb = drop (nat arrStart) json"
        by (simp add: fb dropWhile_eq_drop n_def [symmetric] arrStart add.commute)
      have "fb \<noteq> []" "hd fb = CHR ''[''"
        using bracket hd_dropWhile [of "\<lambda>c. c \<noteq> CHR ''[''" "drop (nat k) json"]
        by (simp_all add: fb)
      then obtain rest where fb_cons: "fb = CHR ''['' # rest"
        by (cases fb) auto
      have rest: "rest = drop (nat (arrStart + 1)) json"
        using fb_cons arrStart by (simp add: fb_drop nat_add_distrib drop_Suc tl_drop [symmetric])
      have arrEnd: "ParseGammaLevels_arrEnd json arrStart 0 =
          Inr (case matching_close fb 0 of None \<Rightarrow> - 1 | Some m \<Rightarrow> arrStart + int m)"
        using arrStart by (simp add: ParseGammaLevels_arrEnd_eq fb_drop)
      have start: "ParseGammaLevels json st =
          (case ParseGammaLevels_arrEnd json arrStart 0 of
             Inl e \<Rightarrow> (Some e, st0)
           | Inr arrEnd \<Rightarrow>
               if arrEnd < 0 then (None, st0)
               else
                 (case Substring json (arrStart + 1) (arrEnd - arrStart - 1) of
                    Inl e \<Rightarrow> (Some e, st0)
                  | Inr arrContent \<Rightarrow>
                      if IsNullOrWhiteSpace arrContent then (None, st0)
                      else ParseGammaLevels_objects arrContent 0 0 (- 1) st0))"
        using k bracket arrStart by (simp add: unfold idx arrStart_def [symmetric])
      show ?thesis
      proof (cases "matching_close fb 0")
        case None
        then have "array_content levelsKey json = None"
          by (simp add: array_content_def fb_def [symmetric])
        with None show ?thesis
          using empty by (simp add: start arrEnd)
      next
        case (Some m)
        define arrContent where "arrContent = take (m - 1) rest"
        have m: "0 < m" "m < length fb"
          using Some matching_close_less [OF Some] by (auto simp add: fb_cons)
        have content: "array_content levelsKey json = Some arrContent"
        proof -
          have "matching_close (from_bracket levelsKey json) 0 = Some m"
            using Some by (simp only: fb_def)
          moreover have "tl (from_bracket levelsKey json) = rest"
            using fb_cons by (simp add: fb_def)
          ultimately show ?thesis
            by (simp add: array_content_def arrContent_def)
        qed
        have "arrStart + 1 + int (m - 1) \<le> int (length json)"
          using m arrStart by (simp add: fb_drop)
        then have sub: "Substring json (arrStart + 1) (int m - 1) = Inr arrContent"
          using arrStart m by (simp add: Substring_Inr arrContent_def rest nat_diff_distrib)
        have loop: "ParseGammaLevels_objects arrContent 0 0 (- 1) st0 =
            (None, fold ParseGammaLevelObject (objects_of arrContent 0 None) st0)"
          by (simp add: ParseGammaLevels_objects_eq open_text_def)
        have "fold ParseGammaLevelObject (objects_of arrContent 0 None) st0 =
            st\<lparr>gammaLevels := map (adjusted_level (spread st))
              (filter (\<lambda>r. 0 < fst r) (raw_levels (indexSymbol st) json))\<rparr>"
          by (simp add: fold_ParseGammaLevelObject raw content st0_def)
        moreover have "IsNullOrWhiteSpace arrContent \<Longrightarrow>
            st0 = st\<lparr>gammaLevels := map (adjusted_level (spread st))
              (filter (\<lambda>r. 0 < fst r) (raw_levels (indexSymbol st) json))\<rparr>"
          by (simp add: raw content objects_of_white st0_def)
        ultimately show ?thesis
          using Some arrStart by (simp add: start arrEnd sub loop)
      qed
    qed
  qed
qed

lemma ParseRegimeUpdate_lock_eq:
  "ParseRegimeUpdate_lock now json st =
     (None,
      st\<lparr>previousRegime :=
           (if currentRegime st \<noteq> ''WAITING'' \<and> currentRegime st \<noteq> new_regime json
            then currentRegime st else previousRegime st),
         currentRegime := new_regime json,
         regimeCode := new_regimeCode json,
         lastUpdate := now,
         indexPrice := new_indexPrice json st\<rparr>)"
  by (simp add: ParseRegimeUpdate_lock_def ExtractJsonValue_eq Let_def new_regime_def
      new_regimeCode_def new_indexPrice_def)

lemma ParseRegimeUpdate_dispatch_eq:
  "ParseRegimeUpdate_dispatch json st =
     (None,
      if 0 < lastClosePrice st then
        st\<lparr>futuresPrice := lastClosePrice st,
           spread := new_spread st,
           gammaLevels :=
             map (adjusted_level (new_spread st))
               (filter (\<lambda>r. 0 < fst r) (raw_levels (indexSymbol st) json))\<rparr>
      else st)"
  by (simp add: ParseRegimeUpdate_dispatch_def ParseGammaLevels_eq Let_def new_spread_def)

lemma ParseRegimeUpdate_eq:
  "ParseRegimeUpdate ChartControl now json st =
     (if ChartControl
      then snd (ParseRegimeUpdate_dispatch json (snd (ParseRegimeUpdate_lock now json st)))
      else snd (ParseRegimeUpdate_lock now json st))"
  by (simp add: ParseRegimeUpdate_def ParseRegimeUpdate_lock_eq)

lemma Math_Round_nearest: "Math_Round x \<in> \<int> \<and> \<bar>Math_Round x - x\<bar> \<le> 1 / 2"
proof -
  have "of_int \<lfloor>x\<rfloor> \<le> x" "x < of_int \<lfloor>x\<rfloor> + 1"
    by linarith+
  then show ?thesis
    by (auto simp add: Math_Round_def Let_def)
qed

lemma bracket_depth_Cons:
  "bracket_depth (c # s) =
     (if c = CHR ''['' then 1 else if c = CHR '']'' then - 1 else 0) + bracket_depth s"
  by (simp add: bracket_depth_def)

lemma matching_close_None:
  "(\<And>n. 0 < n \<Longrightarrow> n \<le> length s \<Longrightarrow> 0 < d + bracket_depth (take n s)) \<Longrightarrow>
   matching_close s d = None"
proof (induction s arbitrary: d)
  case Nil
  show ?case by simp
next
  case (Cons c cs)
  define d' where "d' = d + (if c = CHR ''['' then 1 else if c = CHR '']'' then - 1 else 0)"
  have first: "0 < d'"
    using Cons.prems [of 1] by (auto simp add: d'_def bracket_depth_def)
  have "0 < d' + bracket_depth (take n cs)" if "0 < n" "n \<le> length cs" for n
    using Cons.prems [of "Suc n"] that by (simp add: d'_def bracket_depth_Cons)
  then have "matching_close cs d' = None"
    by (rule Cons.IH)
  with first show ?case
    by (auto simp add: d'_def)
qed

lemma unterminated_array_content:
  assumes "unterminated levelsKey json"
  shows "array_content levelsKey json = None"
proof -
  from assms have "\<forall>n \<in> set [1 ..< Suc (length (from_bracket levelsKey json))].
      0 < bracket_depth (take n (from_bracket levelsKey json))"
    unfolding unterminated_def list_all_iff by (rule conjunct2)
  moreover have "n \<in> set [1 ..< Suc (length (from_bracket levelsKey json))]"
    if "0 < n" "n \<le> length (from_bracket levelsKey json)" for n
    using that by auto
  ultimately have "0 < bracket_depth (take n (from_bracket levelsKey json))"
    if "0 < n" "n \<le> length (from_bracket levelsKey json)" for n
    using that by blast
  then have "0 < 0 + bracket_depth (take n (from_bracket levelsKey json))"
    if "0 < n" "n \<le> length (from_bracket levelsKey json)" for n
    using that by simp
  then have "matching_close (from_bracket levelsKey json) 0 = None"
    by (rule matching_close_None)
  then show ?thesis
    by (simp add: array_content_def)
qed

lemma missing_key_array_content:
  "\<not> sublist (quoted levelsKey) json \<Longrightarrow> array_content levelsKey json = None"
  by (simp add: array_content_def from_bracket_def)

lemma matching_close_None_positive:
  "1 \<le> d \<Longrightarrow> matching_close s d = None \<Longrightarrow> n \<le> length s \<Longrightarrow>
   0 < d + bracket_depth (take n s)"
proof (induction s arbitrary: d n)
  case Nil
  then show ?case by (simp add: bracket_depth_def)
next
  case (Cons c cs)
  define d' where "d' = d + (if c = CHR ''['' then 1 else if c = CHR '']'' then - 1 else 0)"
  from Cons.prems(1,2) have d': "1 \<le> d'" "matching_close cs d' = None"
    by (auto simp add: d'_def split: if_splits)
  show ?case
  proof (cases n)
    case 0
    with Cons.prems show ?thesis by (simp add: bracket_depth_def)
  next
    case (Suc m)
    with Cons.prems have "m \<le> length cs" by simp
    from Cons.IH [OF d' this] show ?thesis
      by (simp add: Suc d'_def bracket_depth_Cons)
  qed
qed

lemma from_bracket_Cons:
  "from_bracket levelsKey json \<noteq> [] \<Longrightarrow>
   from_bracket levelsKey json = CHR ''['' # tl (from_bracket levelsKey json)"
proof -
  assume ne: "from_bracket levelsKey json \<noteq> []"
  then have "hd (from_bracket levelsKey json) = CHR ''[''"
    using hd_dropWhile [of "\<lambda>c. c \<noteq> CHR ''[''"
        "drop (nat (IndexOf json (quoted levelsKey))) json"]
    by (auto simp add: from_bracket_def split: if_splits)
  with ne show ?thesis
    by (cases "from_bracket levelsKey json") simp_all
qed

lemma unterminated_iff:
  assumes "from_bracket levelsKey json \<noteq> []"
  shows "unterminated levelsKey json = (array_content levelsKey json = None)"
proof
  assume "unterminated levelsKey json"
  then show "array_content levelsKey json = None"
    by (rule unterminated_array_content)
next
  define rest where "rest = tl (from_bracket levelsKey json)"
  have fb: "from_bracket levelsKey json = CHR ''['' # rest"
    unfolding rest_def using assms by (rule from_bracket_Cons)
  assume "array_content levelsKey json = None"
  then have none: "matching_close rest 1 = None"
    by (simp add: array_content_def fb split: option.splits)
  have "0 < bracket_depth (take n (from_bracket levelsKey json))"
    if "n \<in> set [1 ..< Suc (length (from_bracket levelsKey json))]" for n
  proof -
    from that have "1 \<le> n \<and> n < Suc (length (from_bracket levelsKey json))"
      by (simp only: set_upt atLeastLessThan_iff)
    then obtain m where n: "n = Suc m" and m: "m \<le> length rest"
      by (cases n) (simp_all add: fb)
    have "0 < 1 + bracket_depth (take m rest)"
      using none m by (intro matching_close_None_positive) simp_all
    then show ?thesis
      by (simp add: n fb bracket_depth_Cons)
  qed
  with assms show "unterminated levelsKey json"
    unfolding unterminated_def list_all_iff by blast
qed

lemma no_array_no_levels:
  "array_content (levelsKey_of (indexSymbol st)) json = None \<Longrightarrow>
   ParseGammaLevels json st = (None, st\<lparr>gammaLevels := []\<rparr>)"
  by (simp add: ParseGammaLevels_eq raw_levels_def)

section \<open>The claims\<close>

text \<open>
  C1. For every line and spread, the recomputed level list holds exactly the raw
  decoded records whose strike is positive, in the order of the line, each with its
  strike and exposure, the adjusted level strike minus spread and the resistance flag
  exposure greater than zero; it replaces the stored list whatever that held, and no
  other field changes. The raw records 100/5000 and 110/-3000 under spread 2 give the
  levels 98, resistance, and 108, support.
\<close>

theorem ParseGammaLevels_adjusts_raw_levels:
  "ParseGammaLevels json st =
     (None,
      st\<lparr>gammaLevels :=
           map (\<lambda>(strike, gex).
                  \<lparr>Strike = strike, Gex = gex, FuturesPrice = strike - spread st,
                   IsResistance = (0 < gex)\<rparr>)
             (filter (\<lambda>(strike, gex). 0 < strike) (raw_levels (indexSymbol st) json))\<rparr>)"
proof -
  have "adjusted_level (spread st) =
      (\<lambda>(strike, gex).
         \<lparr>Strike = strike, Gex = gex, FuturesPrice = strike - spread st, IsResistance = (0 < gex)\<rparr>)"
    by (simp add: fun_eq_iff adjusted_level_def)
  moreover have "(\<lambda>r :: real \<times> real. 0 < fst r) = (\<lambda>(strike, gex). 0 < strike)"
    by (simp add: fun_eq_iff)
  ultimately show ?thesis
    by (simp add: ParseGammaLevels_eq)
qed

theorem ParseGammaLevels_adjusts_raw_levels_witness:
  "raw_levels ''SPX'' line_levels = [(100, 5000), (110, - 3000)] \<and>
   ParseGammaLevels line_levels ((OpenGamma_new ''SPX'')\<lparr>spread := 2\<rparr>) =
     (None,
      (OpenGamma_new ''SPX'')
        \<lparr>spread := 2,
         gammaLevels :=
           [\<lparr>Strike = 100, Gex = 5000, FuturesPrice = 98, IsResistance = True\<rparr>,
            \<lparr>Strike = 110, Gex = - 3000, FuturesPrice = 108, IsResistance = False\<rparr>]\<rparr>)"
proof -
  have raw: "raw_levels ''SPX'' line_levels = [(100, 5000), (110, - 3000)]"
    by code_simp
  show ?thesis
    using ParseGammaLevels_adjusts_raw_levels [of line_levels "(OpenGamma_new ''SPX'')\<lparr>spread := 2\<rparr>"]
    by (simp add: raw OpenGamma_new_def)
qed

text \<open>
  C2. When the regime field of a line decodes to \<open>X\<close>, the current label after the
  update is \<open>X\<close>; the previous label becomes the prior current label exactly when that
  was neither \<open>WAITING\<close> nor \<open>X\<close> and keeps its value otherwise, so it never becomes
  \<open>WAITING\<close>.
\<close>

theorem regime_label_update:
  assumes "ExtractJsonValue json ''regime'' = Inr (Some X)"
  shows "currentRegime (ParseRegimeUpdate ChartControl now json st) = X \<and>
    previousRegime (ParseRegimeUpdate ChartControl now json st) =
      (if currentRegime st \<noteq> ''WAITING'' \<and> currentRegime st \<noteq> X
       then currentRegime st else previousRegime st) \<and>
    (previousRegime st \<noteq> ''WAITING'' \<longrightarrow>
       previousRegime (ParseRegimeUpdate ChartControl now json st) \<noteq> ''WAITING'')"
proof -
  from assms have "new_regime json = X"
    by (simp add: ExtractJsonValue_eq new_regime_def)
  then show ?thesis
    by (simp add: ParseRegimeUpdate_eq ParseRegimeUpdate_lock_eq ParseRegimeUpdate_dispatch_eq)
qed

theorem regime_label_update_witness:
  "ExtractJsonValue line_crash ''regime'' = Inr (Some ''CRASH'') \<and>
   currentRegime st_chop = ''CHOP'' \<and> previousRegime st_chop = ''---'' \<and>
   currentRegime (ParseRegimeUpdate True ''09:30:05'' line_crash st_chop) = ''CRASH'' \<and>
   previousRegime (ParseRegimeUpdate True ''09:30:05'' line_crash st_chop) = ''CHOP''"
proof -
  have x: "ExtractJsonValue line_crash ''regime'' = Inr (Some ''CRASH'')"
    by code_simp
  have st: "currentRegime st_chop = ''CHOP''" "previousRegime st_chop = ''---''"
    by (simp_all add: st_chop_def OpenGamma_new_def)
  from regime_label_update [OF x, of True "''09:30:05''" st_chop]
  have "currentRegime (ParseRegimeUpdate True ''09:30:05'' line_crash st_chop) = ''CRASH''"
    and "previousRegime (ParseRegimeUpdate True ''09:30:05'' line_crash st_chop) = ''CHOP''"
    by (simp_all add: st)
  with x st show ?thesis
    by blast
qed

text \<open>
  C3. When the sampled instrument price and the index price of the line are both
  positive, the spread after the update is the rounded index price minus the rounded
  instrument price, each rounded to a nearest integer before the subtraction. The
  index price 15000.6 and the instrument price 15002.1 give 15001 - 15002 = -1.
\<close>

theorem spread_of_rounded_prices:
  assumes "0 < lastClosePrice st"
    and "0 < indexPrice (ParseRegimeUpdate True now json st)"
  shows "spread (ParseRegimeUpdate True now json st) =
      Math_Round (indexPrice (ParseRegimeUpdate True now json st)) -
      Math_Round (futuresPrice (ParseRegimeUpdate True now json st)) \<and>
    futuresPrice (ParseRegimeUpdate True now json st) = lastClosePrice st \<and>
    Math_Round (indexPrice (ParseRegimeUpdate True now json st)) \<in> \<int> \<and>
    \<bar>Math_Round (indexPrice (ParseRegimeUpdate True now json st)) -
       indexPrice (ParseRegimeUpdate True now json st)\<bar> \<le> 1 / 2 \<and>
    Math_Round (futuresPrice (ParseRegimeUpdate True now json st)) \<in> \<int> \<and>
    \<bar>Math_Round (futuresPrice (ParseRegimeUpdate True now json st)) -
       futuresPrice (ParseRegimeUpdate True now json st)\<bar> \<le> 1 / 2"
proof -
  have "spread (ParseRegimeUpdate True now json st) =
      Math_Round (indexPrice (ParseRegimeUpdate True now json st)) -
      Math_Round (futuresPrice (ParseRegimeUpdate True now json st))"
    and "futuresPrice (ParseRegimeUpdate True now json st) = lastClosePrice st"
    using assms
    by (simp_all add: ParseRegimeUpdate_eq ParseRegimeUpdate_lock_eq ParseRegimeUpdate_dispatch_eq
        new_spread_def)
  then show ?thesis
    using Math_Round_nearest by simp
qed

theorem spread_of_rounded_prices_witness:
  "0 < lastClosePrice st_sampled \<and>
   indexPrice (ParseRegimeUpdate True ''09:30:05'' line_spread st_sampled) = 15000.6 \<and>
   futuresPrice (ParseRegimeUpdate True ''09:30:05'' line_spread st_sampled) = 15002.1 \<and>
   Math_Round 15000.6 = 15001 \<and> Math_Round 15002.1 = 15002 \<and>
   spread (ParseRegimeUpdate True ''09:30:05'' line_spread st_sampled) = - 1"
proof -
  have sampled: "lastClosePrice st_sampled = 15002.1"
    by (simp add: st_sampled_def OnBarUpdate_def OpenGamma_new_def)
  have "new_indexPrice line_spread st_sampled = 15000.6"
    by code_simp
  then have index: "indexPrice (ParseRegimeUpdate True ''09:30:05'' line_spread st_sampled) = 15000.6"
    by (simp add: ParseRegimeUpdate_eq ParseRegimeUpdate_lock_eq ParseRegimeUpdate_dispatch_eq)
  have r1: "Math_Round 15000.6 = 15001" and r2: "Math_Round 15002.1 = 15002"
    by (simp_all add: Math_Round_def)
  have h1: "0 < lastClosePrice st_sampled"
    and h2: "0 < indexPrice (ParseRegimeUpdate True ''09:30:05'' line_spread st_sampled)"
    by (simp_all add: sampled index)
  from spread_of_rounded_prices [OF h1 h2]
  have sp: "spread (ParseRegimeUpdate True ''09:30:05'' line_spread st_sampled) =
      Math_Round (indexPrice (ParseRegimeUpdate True ''09:30:05'' line_spread st_sampled)) -
      Math_Round (futuresPrice (ParseRegimeUpdate True ''09:30:05'' line_spread st_sampled))"
    and fut: "futuresPrice (ParseRegimeUpdate True ''09:30:05'' line_spread st_sampled) =
      lastClosePrice st_sampled"
    by blast+
  have fut': "futuresPrice (ParseRegimeUpdate True ''09:30:05'' line_spread st_sampled) = 15002.1"
    by (simp only: fut sampled)
  have "spread (ParseRegimeUpdate True ''09:30:05'' line_spread st_sampled) = 15001 - 15002"
    by (simp only: sp index fut' r1 r2)
  then have sp': "spread (ParseRegimeUpdate True ''09:30:05'' line_spread st_sampled) = - 1"
    by simp
  show ?thesis
    by (intro conjI h1 index fut' r1 r2 sp')
qed

text \<open>
  C4. In every update the spread is recomputed only when the chart control is there
  and both the sampled instrument price and the index price are positive, and keeps
  its prior value otherwise; the instrument price field is overwritten only when the
  sampled price is positive. The same holds of the dispatcher block alone, from
  whatever state it runs.
\<close>

theorem spread_and_futuresPrice_guards:
  "spread (ParseRegimeUpdate ChartControl now json st) =
     (if ChartControl \<and> 0 < lastClosePrice st \<and> 0 < new_indexPrice json st
      then Math_Round (new_indexPrice json st) - Math_Round (lastClosePrice st)
      else spread st) \<and>
   futuresPrice (ParseRegimeUpdate ChartControl now json st) =
     (if ChartControl \<and> 0 < lastClosePrice st then lastClosePrice st else futuresPrice st) \<and>
   indexPrice (ParseRegimeUpdate ChartControl now json st) = new_indexPrice json st \<and>
   spread (snd (ParseRegimeUpdate_dispatch json st)) =
     (if 0 < lastClosePrice st \<and> 0 < indexPrice st
      then Math_Round (indexPrice st) - Math_Round (lastClosePrice st)
      else spread st) \<and>
   futuresPrice (snd (ParseRegimeUpdate_dispatch json st)) =
     (if 0 < lastClosePrice st then lastClosePrice st else futuresPrice st)"
proof -
  have block: "spread (snd (ParseRegimeUpdate_dispatch json s)) =
      (if 0 < lastClosePrice s \<and> 0 < indexPrice s
       then Math_Round (indexPrice s) - Math_Round (lastClosePrice s)
       else spread s)"
    "futuresPrice (snd (ParseRegimeUpdate_dispatch json s)) =
      (if 0 < lastClosePrice s then lastClosePrice s else futuresPrice s)"
    "indexPrice (snd (ParseRegimeUpdate_dispatch json s)) = indexPrice s" for s
    by (simp_all add: ParseRegimeUpdate_dispatch_eq new_spread_def)
  have first: "spread (snd (ParseRegimeUpdate_lock now json st)) = spread st"
    "futuresPrice (snd (ParseRegimeUpdate_lock now json st)) = futuresPrice st"
    "lastClosePrice (snd (ParseRegimeUpdate_lock now json st)) = lastClosePrice st"
    "indexPrice (snd (ParseRegimeUpdate_lock now json st)) = new_indexPrice json st"
    by (simp_all add: ParseRegimeUpdate_lock_eq)
  show ?thesis
    by (simp add: ParseRegimeUpdate_eq block first)
qed

theorem spread_and_futuresPrice_guards_witness:
  "lastClosePrice st_idle = 0 \<and>
   spread (ParseRegimeUpdate True ''09:30:05'' line_spread st_idle) = 7 \<and>
   futuresPrice (ParseRegimeUpdate True ''09:30:05'' line_spread st_idle) = 4990 \<and>
   lastClosePrice st_levels = 4998 \<and> new_indexPrice line_no_spot st_levels = 0 \<and>
   spread (ParseRegimeUpdate True ''09:30:05'' line_no_spot st_levels) = 7 \<and>
   futuresPrice (ParseRegimeUpdate True ''09:30:05'' line_no_spot st_levels) = 4998"
proof -
  have a: "lastClosePrice st_idle = 0" "spread st_idle = 7" "futuresPrice st_idle = 4990"
    by (simp_all add: st_idle_def OpenGamma_new_def)
  have b: "lastClosePrice st_levels = 4998" "spread st_levels = 7"
    by (simp_all add: st_levels_def OpenGamma_new_def)
  have c: "new_indexPrice line_no_spot st_levels = 0"
    by code_simp
  from spread_and_futuresPrice_guards [of True "''09:30:05''" line_spread st_idle]
  have a': "spread (ParseRegimeUpdate True ''09:30:05'' line_spread st_idle) = 7"
    "futuresPrice (ParseRegimeUpdate True ''09:30:05'' line_spread st_idle) = 4990"
    by (simp_all add: a)
  from spread_and_futuresPrice_guards [of True "''09:30:05''" line_no_spot st_levels]
  have b': "spread (ParseRegimeUpdate True ''09:30:05'' line_no_spot st_levels) = 7"
    "futuresPrice (ParseRegimeUpdate True ''09:30:05'' line_no_spot st_levels) = 4998"
    by (simp_all add: b c)
  show ?thesis
    by (intro conjI a(1) a' b(1) c b')
qed

text \<open>
  C5, amended. With the index symbol NDX or SPX the index price after the update is
  the value parsed from the selected spot field, whatever its sign, and 0 when the
  field is absent or does not parse; it keeps its prior value only when no index
  symbol is configured.
\<close>

theorem indexPrice_follows_spot_field:
  "ExtractJsonValue json ''spot_ndx'' = Inr (scalar_value json ''spot_ndx'') \<and>
   ExtractJsonValue json ''spot_spx'' = Inr (scalar_value json ''spot_spx'') \<and>
   indexPrice (ParseRegimeUpdate ChartControl now json st) =
     (if indexSymbol st = ''NDX'' then
        (case double_TryParse (scalar_value json ''spot_ndx'') of None \<Rightarrow> 0 | Some v \<Rightarrow> v)
      else if indexSymbol st = ''SPX'' then
        (case double_TryParse (scalar_value json ''spot_spx'') of None \<Rightarrow> 0 | Some v \<Rightarrow> v)
      else indexPrice st)"
  by (simp add: ExtractJsonValue_eq ParseRegimeUpdate_eq ParseRegimeUpdate_lock_eq
      ParseRegimeUpdate_dispatch_eq new_indexPrice_def out_double_def)

theorem indexPrice_follows_spot_field_witness:
  "indexPrice (ParseRegimeUpdate True ''09:30:05'' line_negative_spot st_levels) = - 3.5 \<and>
   indexPrice (ParseRegimeUpdate True ''09:30:05'' line_no_spot st_levels) = 0 \<and>
   indexPrice (ParseRegimeUpdate True ''09:30:05'' line_levels st_no_affinity) = 42"
proof -
  have a: "indexSymbol st_levels = ''SPX''" "indexSymbol st_no_affinity = []"
    "indexPrice st_no_affinity = 42"
    by (simp_all add: st_levels_def st_no_affinity_def OpenGamma_new_def)
  have b: "double_TryParse (scalar_value line_negative_spot ''spot_spx'') = Some (- 3.5)"
    "double_TryParse (scalar_value line_no_spot ''spot_spx'') = None"
    by code_simp+
  from indexPrice_follows_spot_field [of line_negative_spot True "''09:30:05''" st_levels]
  have 1: "indexPrice (ParseRegimeUpdate True ''09:30:05'' line_negative_spot st_levels) = - 3.5"
    by (simp add: a b)
  from indexPrice_follows_spot_field [of line_no_spot True "''09:30:05''" st_levels]
  have 2: "indexPrice (ParseRegimeUpdate True ''09:30:05'' line_no_spot st_levels) = 0"
    by (simp add: a b)
  from indexPrice_follows_spot_field [of line_levels True "''09:30:05''" st_no_affinity]
  have 3: "indexPrice (ParseRegimeUpdate True ''09:30:05'' line_levels st_no_affinity) = 42"
    by (simp add: a)
  show ?thesis
    by (intro conjI 1 2 3)
qed

text \<open>
  C5 as stated asks that the prior index price stays when the spot field is absent.
  After a line with the spot 5000.5, a line without the field sets the index price
  to 0.
\<close>

theorem indexPrice_reset_counterexample:
  "indexPrice (ParseRegimeUpdate True ''09:30:00'' line_levels (OpenGamma_new ''SPX'')) = 5000.5 \<and>
   ExtractJsonValue line_no_spot ''spot_spx'' = Inr None \<and>
   indexPrice (ParseRegimeUpdate True ''09:30:05'' line_no_spot
     (ParseRegimeUpdate True ''09:30:00'' line_levels (OpenGamma_new ''SPX''))) = 0"
  by code_simp

text \<open>
  C6. Applying the same line a second time leaves the previous label as the first
  application left it, with or without the chart control and at any time of day.
\<close>

theorem same_line_twice_keeps_previousRegime:
  "previousRegime (ParseRegimeUpdate c2 now2 json (ParseRegimeUpdate c1 now1 json st)) =
   previousRegime (ParseRegimeUpdate c1 now1 json st)"
proof -
  define s1 where "s1 = ParseRegimeUpdate c1 now1 json st"
  have first: "currentRegime s1 = new_regime json"
    by (simp add: s1_def ParseRegimeUpdate_eq ParseRegimeUpdate_lock_eq
        ParseRegimeUpdate_dispatch_eq)
  have "previousRegime (ParseRegimeUpdate c2 now2 json s1) =
      (if currentRegime s1 \<noteq> ''WAITING'' \<and> currentRegime s1 \<noteq> new_regime json
       then currentRegime s1 else previousRegime s1)"
    by (simp add: ParseRegimeUpdate_eq ParseRegimeUpdate_lock_eq ParseRegimeUpdate_dispatch_eq)
  also have "\<dots> = previousRegime s1"
    by (simp add: first)
  finally show ?thesis
    by (simp only: s1_def)
qed

theorem same_line_twice_keeps_previousRegime_witness:
  "previousRegime (ParseRegimeUpdate True ''09:30:05'' line_crash st_chop) = ''CHOP'' \<and>
   previousRegime (ParseRegimeUpdate True ''09:30:10'' line_crash
     (ParseRegimeUpdate True ''09:30:05'' line_crash st_chop)) = ''CHOP''"
proof -
  have "new_regime line_crash = ''CRASH''"
    by code_simp
  moreover have "currentRegime st_chop = ''CHOP''"
    by (simp add: st_chop_def OpenGamma_new_def)
  ultimately have once:
    "previousRegime (ParseRegimeUpdate True ''09:30:05'' line_crash st_chop) = ''CHOP''"
    by (simp add: ParseRegimeUpdate_eq ParseRegimeUpdate_lock_eq ParseRegimeUpdate_dispatch_eq)
  from same_line_twice_keeps_previousRegime
    [of True "''09:30:10''" line_crash True "''09:30:05''" st_chop]
  have "previousRegime (ParseRegimeUpdate True ''09:30:10'' line_crash
      (ParseRegimeUpdate True ''09:30:05'' line_crash st_chop)) = ''CHOP''"
    by (simp only: once)
  with once show ?thesis
    by blast
qed

text \<open>
  C7. When the selected array of a line is not terminated, the recomputation of the
  levels returns without an exception and leaves the list empty, and the update of
  the line throws nothing either and still sets the label, the code, the time stamp,
  the index price and, with a sampled price, the instrument price.
\<close>

theorem unterminated_array_gives_no_levels:
  assumes "unterminated (levelsKey_of (indexSymbol st)) json"
  shows "ParseGammaLevels json st = (None, st\<lparr>gammaLevels := []\<rparr>) \<and>
    fst (ParseRegimeUpdate_lock now json st) = None \<and>
    fst (ParseRegimeUpdate_dispatch json (snd (ParseRegimeUpdate_lock now json st))) = None \<and>
    currentRegime (ParseRegimeUpdate True now json st) = new_regime json \<and>
    regimeCode (ParseRegimeUpdate True now json st) = new_regimeCode json \<and>
    lastUpdate (ParseRegimeUpdate True now json st) = now \<and>
    indexPrice (ParseRegimeUpdate True now json st) = new_indexPrice json st \<and>
    (0 < lastClosePrice st \<longrightarrow>
       futuresPrice (ParseRegimeUpdate True now json st) = lastClosePrice st \<and>
       gammaLevels (ParseRegimeUpdate True now json st) = [])"
proof -
  from assms have none: "array_content (levelsKey_of (indexSymbol st)) json = None"
    by (rule unterminated_array_content)
  then have "raw_levels (indexSymbol st) json = []"
    by (simp add: raw_levels_def)
  then show ?thesis
    using no_array_no_levels [OF none]
    by (simp add: ParseRegimeUpdate_eq ParseRegimeUpdate_lock_eq ParseRegimeUpdate_dispatch_eq)
qed

theorem unterminated_array_gives_no_levels_witness:
  "unterminated (levelsKey_of (indexSymbol st_levels)) line_unterminated \<and>
   gammaLevels st_levels \<noteq> [] \<and>
   ParseGammaLevels line_unterminated st_levels = (None, st_levels\<lparr>gammaLevels := []\<rparr>) \<and>
   currentRegime (ParseRegimeUpdate True ''09:30:05'' line_unterminated st_levels) = ''CHOP'' \<and>
   regimeCode (ParseRegimeUpdate True ''09:30:05'' line_unterminated st_levels) = 3 \<and>
   indexPrice (ParseRegimeUpdate True ''09:30:05'' line_unterminated st_levels) = 5000.5 \<and>
   futuresPrice (ParseRegimeUpdate True ''09:30:05'' line_unterminated st_levels) = 4998 \<and>
   gammaLevels (ParseRegimeUpdate True ''09:30:05'' line_unterminated st_levels) = []"
proof -
  have open_array: "unterminated (levelsKey_of (indexSymbol st_levels)) line_unterminated"
    by code_simp
  have a: "new_regime line_unterminated = ''CHOP''" "new_regimeCode line_unterminated = 3"
    "new_indexPrice line_unterminated st_levels = 5000.5"
    by code_simp+
  have b: "lastClosePrice st_levels = 4998" "gammaLevels st_levels \<noteq> []"
    by (simp_all add: st_levels_def OpenGamma_new_def)
  from unterminated_array_gives_no_levels [OF open_array, of "''09:30:05''"]
  have 1: "ParseGammaLevels line_unterminated st_levels = (None, st_levels\<lparr>gammaLevels := []\<rparr>)"
    and 2: "currentRegime (ParseRegimeUpdate True ''09:30:05'' line_unterminated st_levels) = ''CHOP''"
    and 3: "regimeCode (ParseRegimeUpdate True ''09:30:05'' line_unterminated st_levels) = 3"
    and 4: "indexPrice (ParseRegimeUpdate True ''09:30:05'' line_unterminated st_levels) = 5000.5"
    and 5: "futuresPrice (ParseRegimeUpdate True ''09:30:05'' line_unterminated st_levels) = 4998"
    and 6: "gammaLevels (ParseRegimeUpdate True ''09:30:05'' line_unterminated st_levels) = []"
    by (simp_all add: a b)
  show ?thesis
    by (intro conjI open_array b(2) 1 2 3 4 5 6)
qed

text \<open>
  C8, amended. The scalar extractor returns the absent result when the key pattern
  does not occur in the line, and otherwise exactly when only white space follows
  the pattern or the value opens with a quote that is never closed; it never throws.
  A line without the regime key sets the current label to \<open>UNKNOWN\<close>.
\<close>

theorem ExtractJsonValue_absent_cases:
  "(ExtractJsonValue json key = Inr None) =
     (\<not> sublist (key_pattern key) json \<or> value_text json key = [] \<or>
      hd (value_text json key) = CHR 0x22 \<and> CHR 0x22 \<notin> set (tl (value_text json key))) \<and>
   (\<not> sublist (key_pattern ''regime'') json \<longrightarrow>
      currentRegime (ParseRegimeUpdate ChartControl now json st) = ''UNKNOWN'')"
proof -
  have "(ExtractJsonValue json key = Inr None) =
     (\<not> sublist (key_pattern key) json \<or> value_text json key = [] \<or>
      hd (value_text json key) = CHR 0x22 \<and> CHR 0x22 \<notin> set (tl (value_text json key)))"
    by (cases "value_text json key") (auto simp add: ExtractJsonValue_eq scalar_value_def)
  moreover have "new_regime json = ''UNKNOWN''" if "\<not> sublist (key_pattern ''regime'') json"
    using that by (simp add: new_regime_def scalar_value_def)
  ultimately show ?thesis
    by (simp add: ParseRegimeUpdate_eq ParseRegimeUpdate_lock_eq ParseRegimeUpdate_dispatch_eq)
qed

theorem ExtractJsonValue_absent_cases_witness:
  "\<not> sublist (key_pattern ''regime'') line_no_regime \<and>
   ExtractJsonValue line_no_regime ''regime'' = Inr None \<and>
   currentRegime (ParseRegimeUpdate True ''09:30:05'' line_no_regime st_levels) = ''UNKNOWN''"
proof -
  have absent: "\<not> sublist (key_pattern ''regime'') line_no_regime"
    by code_simp
  from ExtractJsonValue_absent_cases [of line_no_regime "''regime''" True "''09:30:05''" st_levels]
  have "ExtractJsonValue line_no_regime ''regime'' = Inr None"
    and "currentRegime (ParseRegimeUpdate True ''09:30:05'' line_no_regime st_levels) = ''UNKNOWN''"
    using absent by blast+
  with absent show ?thesis
    by blast
qed

text \<open>
  C8 as stated asks for the absent result only when the key pattern does not occur.
  In a line cut off inside the label the pattern occurs and the result is absent.
\<close>

theorem ExtractJsonValue_absent_counterexample:
  "sublist (key_pattern ''regime'') line_open_quote \<and>
   ExtractJsonValue line_open_quote ''regime'' = Inr None"
  by code_simp

text \<open>
  C9. Without the chart control an update still sets the current label, the previous
  label, the code, the time stamp and the index price, to the values it sets with
  the chart control, and leaves the instrument price, the spread and the level list
  as they were.
\<close>

theorem null_ChartControl_skips_dispatch:
  "ParseRegimeUpdate False now json st =
     st\<lparr>previousRegime :=
          (if currentRegime st \<noteq> ''WAITING'' \<and> currentRegime st \<noteq> new_regime json
           then currentRegime st else previousRegime st),
        currentRegime := new_regime json,
        regimeCode := new_regimeCode json,
        lastUpdate := now,
        indexPrice := new_indexPrice json st\<rparr> \<and>
   futuresPrice (ParseRegimeUpdate False now json st) = futuresPrice st \<and>
   spread (ParseRegimeUpdate False now json st) = spread st \<and>
   gammaLevels (ParseRegimeUpdate False now json st) = gammaLevels st \<and>
   currentRegime (ParseRegimeUpdate False now json st) =
     currentRegime (ParseRegimeUpdate True now json st) \<and>
   previousRegime (ParseRegimeUpdate False now json st) =
     previousRegime (ParseRegimeUpdate True now json st) \<and>
   regimeCode (ParseRegimeUpdate False now json st) =
     regimeCode (ParseRegimeUpdate True now json st) \<and>
   lastUpdate (ParseRegimeUpdate False now json st) =
     lastUpdate (ParseRegimeUpdate True now json st) \<and>
   indexPrice (ParseRegimeUpdate False now json st) =
     indexPrice (ParseRegimeUpdate True now json st)"
proof -
  define s1 where "s1 = snd (ParseRegimeUpdate_lock now json st)"
  have skipped: "ParseRegimeUpdate False now json st = s1"
    and run: "ParseRegimeUpdate True now json st = snd (ParseRegimeUpdate_dispatch json s1)"
    by (simp_all add: s1_def ParseRegimeUpdate_eq)
  have s1: "s1 =
     st\<lparr>previousRegime :=
          (if currentRegime st \<noteq> ''WAITING'' \<and> currentRegime st \<noteq> new_regime json
           then currentRegime st else previousRegime st),
        currentRegime := new_regime json,
        regimeCode := new_regimeCode json,
        lastUpdate := now,
        indexPrice := new_indexPrice json st\<rparr>"
    by (simp add: s1_def ParseRegimeUpdate_lock_eq)
  have frame: "futuresPrice s1 = futuresPrice st" "spread s1 = spread st"
    "gammaLevels s1 = gammaLevels st"
    by (simp_all add: s1)
  have same: "currentRegime (snd (ParseRegimeUpdate_dispatch json s1)) = currentRegime s1"
    "previousRegime (snd (ParseRegimeUpdate_dispatch json s1)) = previousRegime s1"
    "regimeCode (snd (ParseRegimeUpdate_dispatch json s1)) = regimeCode s1"
    "lastUpdate (snd (ParseRegimeUpdate_dispatch json s1)) = lastUpdate s1"
    "indexPrice (snd (ParseRegimeUpdate_dispatch json s1)) = indexPrice s1"
    by (simp_all add: ParseRegimeUpdate_dispatch_eq)
  show ?thesis
    unfolding skipped run same frame by (simp add: s1 [symmetric])
qed

theorem null_ChartControl_skips_dispatch_witness:
  "ParseRegimeUpdate False ''09:30:05'' line_levels st_levels =
     st_levels\<lparr>currentRegime := ''GRIND_UP'', regimeCode := 1, lastUpdate := ''09:30:05'',
       indexPrice := 5000.5\<rparr> \<and>
   futuresPrice (ParseRegimeUpdate True ''09:30:05'' line_levels st_levels) = 4998 \<and>
   length (gammaLevels (ParseRegimeUpdate True ''09:30:05'' line_levels st_levels)) = 2"
proof -
  have a: "new_regime line_levels = ''GRIND_UP''" "new_regimeCode line_levels = 1"
    by code_simp+
  have b: "new_indexPrice line_levels st_levels = 5000.5"
    by code_simp
  have c: "currentRegime st_levels = ''WAITING''" "previousRegime st_levels = ''---''"
    by (simp_all add: st_levels_def OpenGamma_new_def)
  from null_ChartControl_skips_dispatch [of "''09:30:05''" line_levels st_levels]
  have 1: "ParseRegimeUpdate False ''09:30:05'' line_levels st_levels =
     st_levels\<lparr>currentRegime := ''GRIND_UP'', regimeCode := 1, lastUpdate := ''09:30:05'',
       indexPrice := 5000.5\<rparr>"
    by (simp add: a b c)
  have 2: "futuresPrice (ParseRegimeUpdate True ''09:30:05'' line_levels st_levels) = 4998"
    by (simp add: ParseRegimeUpdate_eq ParseRegimeUpdate_lock_eq ParseRegimeUpdate_dispatch_eq
        st_levels_def OpenGamma_new_def)
  have "raw_levels ''SPX'' line_levels = [(100, 5000), (110, - 3000)]"
    by code_simp
  then have 3: "length (gammaLevels (ParseRegimeUpdate True ''09:30:05'' line_levels st_levels)) = 2"
    by (simp add: ParseRegimeUpdate_eq ParseRegimeUpdate_lock_eq ParseRegimeUpdate_dispatch_eq
        st_levels_def OpenGamma_new_def)
  show ?thesis
    by (intro conjI 1 2 3)
qed

text \<open>
  C10. The recomputation of the levels starts from the empty list whatever the list
  held before, so its result never depends on the prior levels, and it ends with the
  empty list when the selected key is absent, when the array is not terminated and
  when no raw record has a positive strike.
\<close>

theorem ParseGammaLevels_discards_prior_levels:
  "ParseGammaLevels json (st\<lparr>gammaLevels := prior\<rparr>) =
     ParseGammaLevels json (st\<lparr>gammaLevels := []\<rparr>) \<and>
   (\<not> sublist (quoted (levelsKey_of (indexSymbol st))) json \<longrightarrow>
      gammaLevels (snd (ParseGammaLevels json st)) = []) \<and>
   (unterminated (levelsKey_of (indexSymbol st)) json \<longrightarrow>
      gammaLevels (snd (ParseGammaLevels json st)) = []) \<and>
   ((\<forall>r \<in> set (raw_levels (indexSymbol st) json). fst r \<le> 0) \<longrightarrow>
      gammaLevels (snd (ParseGammaLevels json st)) = [])"
proof -
  have "gammaLevels (snd (ParseGammaLevels json st)) = []"
    if "\<forall>r \<in> set (raw_levels (indexSymbol st) json). fst r \<le> 0"
  proof -
    from that have "filter (\<lambda>r. 0 < fst r) (raw_levels (indexSymbol st) json) = []"
      by (auto simp add: filter_empty_conv)
    then show ?thesis
      by (simp add: ParseGammaLevels_eq)
  qed
  then show ?thesis
    by (simp add: ParseGammaLevels_eq raw_levels_def unterminated_array_content
        missing_key_array_content)
qed

theorem ParseGammaLevels_discards_prior_levels_witness:
  "gammaLevels st_levels \<noteq> [] \<and>
   \<not> sublist (quoted (levelsKey_of (indexSymbol st_levels))) line_no_spot \<and>
   gammaLevels (snd (ParseGammaLevels line_no_spot st_levels)) = [] \<and>
   unterminated (levelsKey_of (indexSymbol st_levels)) line_unterminated \<and>
   gammaLevels (snd (ParseGammaLevels line_unterminated st_levels)) = [] \<and>
   raw_levels (indexSymbol st_levels) line_nonpositive = [(0, 5000), (- 5, 1)] \<and>
   gammaLevels (snd (ParseGammaLevels line_nonpositive st_levels)) = []"
proof -
  have prior: "gammaLevels st_levels \<noteq> []"
    by (simp add: st_levels_def OpenGamma_new_def)
  have a: "\<not> sublist (quoted (levelsKey_of (indexSymbol st_levels))) line_no_spot"
    by code_simp
  have b: "unterminated (levelsKey_of (indexSymbol st_levels)) line_unterminated"
    by code_simp
  have c: "raw_levels (indexSymbol st_levels) line_nonpositive = [(0, 5000), (- 5, 1)]"
    by code_simp
  have c': "\<forall>r \<in> set (raw_levels (indexSymbol st_levels) line_nonpositive). fst r \<le> 0"
    by (simp add: c)
  from ParseGammaLevels_discards_prior_levels [where json = line_no_spot and st = st_levels] a
  have 1: "gammaLevels (snd (ParseGammaLevels line_no_spot st_levels)) = []"
    by blast
  from ParseGammaLevels_discards_prior_levels [where json = line_unterminated and st = st_levels] b
  have 2: "gammaLevels (snd (ParseGammaLevels line_unterminated st_levels)) = []"
    by blast
  from ParseGammaLevels_discards_prior_levels [where json = line_nonpositive and st = st_levels] c'
  have 3: "gammaLevels (snd (ParseGammaLevels line_nonpositive st_levels)) = []"
    by blast
  show ?thesis
    by (intro conjI prior a 1 b 2 c 3)
qed

end
